theory Spec2Isabelle
  imports Complex_Main "HOL-Library.Log_Nat"
begin

section \<open>Strings of the host language\<close>

text \<open>
  A JavaScript string is a sequence of code units; it is modelled as a \<^typ>\<open>string\<close>, one
  \<^typ>\<open>char\<close> per code unit, so the model covers the code units 0 to 255.  The white
  space of \<^verbatim>\<open>String.prototype.trim\<close>, of the regular-expression class \<^verbatim>\<open>\s\<close> and of
  the numeric-string grammar is the same set: TAB, LF, VT, FF, CR, SP and NBSP in this range.
\<close>

definition LF :: char where
  "LF = CHR 0x0A"

definition DQUOTE :: char where
  "DQUOTE = CHR 0x22"

definition BACKTICK :: char where
  "BACKTICK = CHR 0x60"

definition is_space :: "char \<Rightarrow> bool" where
  "is_space c = (of_char c \<in> {9, 10, 11, 12, 13, 32, 160 :: nat})"

definition trim :: "string \<Rightarrow> string" where
  "trim s = rev (dropWhile is_space (rev (dropWhile is_space s)))"

text \<open>\<^verbatim>\<open>String.prototype.trimEnd\<close>.\<close>

definition trimEnd :: "string \<Rightarrow> string" where
  "trimEnd s = rev (dropWhile is_space (rev s))"

fun startsWith :: "string \<Rightarrow> string \<Rightarrow> bool" where
  "startsWith s [] = True"
| "startsWith [] (p # ps) = False"
| "startsWith (c # cs) (p # ps) = (c = p \<and> startsWith cs ps)"

text \<open>\<^verbatim>\<open>s.indexOf(c)\<close> and \<^verbatim>\<open>s.lastIndexOf(c)\<close> for a one-character pattern: the index, or -1.\<close>

fun indexOf :: "string \<Rightarrow> char \<Rightarrow> int" where
  "indexOf [] c = -1"
| "indexOf (x # xs) c =
     (if x = c then 0 else (let i = indexOf xs c in if i = -1 then -1 else i + 1))"

fun lastIndexOf :: "string \<Rightarrow> char \<Rightarrow> int" where
  "lastIndexOf [] c = -1"
| "lastIndexOf (x # xs) c =
     (let i = lastIndexOf xs c in if i \<noteq> -1 then i + 1 else if x = c then 0 else -1)"

text \<open>\<^verbatim>\<open>s.slice(a, b)\<close> for indices \<open>0 \<le> a\<close> and \<open>0 \<le> b\<close>, as the callers here pass them.\<close>

definition slice :: "string \<Rightarrow> int \<Rightarrow> int \<Rightarrow> string" where
  "slice s a b = take (nat b - nat a) (drop (nat a) s)"

text \<open>\<^verbatim>\<open>lines.join(sep)\<close>.\<close>

fun join :: "string \<Rightarrow> string list \<Rightarrow> string" where
  "join sep [] = []"
| "join sep [l] = l"
| "join sep (l # m # ls) = l @ sep @ join sep (m # ls)"

section \<open>Numbers of the host language\<close>

text \<open>
  A Number is an IEEE 754 binary64 value.  The finite ones are modelled by their exact
  rational value (the two zeros are not told apart: no operation below distinguishes them),
  and every conversion into a Number rounds to the nearest binary64 value, ties to even.
\<close>

datatype jsnum = NaN | PosInf | NegInf | Fin rat

definition pow2 :: "int \<Rightarrow> rat" where
  "pow2 p = (if 0 \<le> p then 2 ^ nat p else 1 / 2 ^ nat (- p))"

definition pow10 :: "int \<Rightarrow> rat" where
  "pow10 p = (if 0 \<le> p then 10 ^ nat p else 1 / 10 ^ nat (- p))"

definition round_half_even :: "rat \<Rightarrow> int" where
  "round_half_even x =
     (let f = \<lfloor>x\<rfloor>; d = x - of_int f
      in if d < 1 / 2 then f else if 1 / 2 < d then f + 1 else if even f then f else f + 1)"

text \<open>The binary exponent \<open>e\<close> of a positive rational: \<open>2 ^ e \<le> q < 2 ^ (e + 1)\<close>.\<close>

definition ilog2 :: "rat \<Rightarrow> int" where
  "ilog2 q =
     (let e = bitlen (fst (quotient_of q)) - bitlen (snd (quotient_of q))
      in if pow2 e \<le> q then e else e - 1)"

text \<open>
  The Number value of a mathematical value: 53 significant bits, least exponent -1074
  (subnormal numbers), overflow to infinity from \<open>2 ^ 1024\<close> on.
\<close>

definition to_double :: "rat \<Rightarrow> jsnum" where
  "to_double q =
     (if q = 0 then Fin 0
      else
        let a = \<bar>q\<bar>;
            p = max (ilog2 a - 52) (- 1074);
            v = of_int (round_half_even (a / pow2 p)) * pow2 p
        in if pow2 1024 \<le> v then (if q < 0 then NegInf else PosInf)
           else Fin (if q < 0 then - v else v))"

text \<open>The decimal digits of a natural number.\<close>

function digits :: "int \<Rightarrow> string" where
  "digits n =
     (if n < 10 then [''0123456789'' ! nat n]
      else digits (n div 10) @ [''0123456789'' ! nat (n mod 10)])"
  by pat_completeness auto
termination
  by (relation "measure nat") auto

declare digits.simps [simp del]

text \<open>The decimal exponent \<open>n\<close> of a positive rational: \<open>10 ^ (n - 1) \<le> x < 10 ^ n\<close>.\<close>

definition decimal_exponent :: "rat \<Rightarrow> int" where
  "decimal_exponent x =
     (if 1 \<le> x then int (length (digits \<lfloor>x\<rfloor>))
      else 1 - int (length (digits (\<lceil>1 / x\<rceil> - 1))))"

text \<open>
  \<^verbatim>\<open>Number::toString\<close>, step 5: integers \<open>n\<close>, \<open>k\<close>, \<open>s\<close> with \<open>k\<close> digits in \<open>s\<close>, the Number
  value of \<open>s * 10 ^ (n - k)\<close> equal to \<open>x\<close>, and \<open>k\<close> as small as possible; among several
  \<open>s\<close> the one closest to \<open>x\<close>, the even one on a tie.  The search tries \<open>k = 1, 2, ...\<close>;
  17 digits identify every binary64 value, so the last equation is not reached for one.
  The result is \<open>(s, k, n)\<close>.
\<close>

fun shortest_digits :: "nat \<Rightarrow> rat \<Rightarrow> int \<Rightarrow> nat \<Rightarrow> int \<times> nat \<times> int" where
  "shortest_digits 0 x n0 k = (\<lfloor>x / pow10 (n0 - int k)\<rfloor>, k, n0)"
| "shortest_digits (Suc fuel) x n0 k =
     (let sc = pow10 (n0 - int k);
          f = \<lfloor>x / sc\<rfloor>;
          lo = (to_double (of_int f * sc) = Fin x);
          hi = (to_double (of_int (f + 1) * sc) = Fin x);
          dl = x - of_int f * sc;
          dh = of_int (f + 1) * sc - x;
          s = (if lo \<and> hi then (if dl < dh then f else if dh < dl then f + 1
                                  else if even f then f else f + 1)
               else if lo then f else f + 1)
      in if lo \<or> hi then
           (if s = 10 ^ k then (1, 1, n0 + 1) else (s, k, n0))
         else shortest_digits fuel x n0 (Suc k))"

definition toString_positive :: "rat \<Rightarrow> string" where
  "toString_positive x =
     (case shortest_digits 17 x (decimal_exponent x) 1 of (s, k, n) \<Rightarrow>
        let ds = digits s in
        if - 5 \<le> n \<and> n \<le> 21 then
          (if int k \<le> n then ds @ replicate (nat (n - int k)) (CHR ''0'')
           else if 0 < n then take (nat n) ds @ ''.'' @ drop (nat n) ds
           else ''0.'' @ replicate (nat (- n)) (CHR ''0'') @ ds)
        else
          (let ex = (if n < 0 then ''-'' else ''+'') @ digits \<bar>n - 1\<bar>
           in if k = 1 then ds @ ''e'' @ ex
              else take 1 ds @ ''.'' @ drop 1 ds @ ''e'' @ ex))"

text \<open>\<^verbatim>\<open>Number::toString(x, 10)\<close>.\<close>

definition number_toString :: "jsnum \<Rightarrow> string" where
  "number_toString v =
     (case v of
        NaN \<Rightarrow> ''NaN''
      | PosInf \<Rightarrow> ''Infinity''
      | NegInf \<Rightarrow> ''-Infinity''
      | Fin x \<Rightarrow>
          if x = 0 then ''0''
          else if x < 0 then ''-'' @ toString_positive (- x)
          else toString_positive x)"

text \<open>
  \<^verbatim>\<open>Number.prototype.toFixed(2)\<close>: a value that is not finite, or of magnitude at least
  \<open>10 ^ 21\<close>, is rendered by \<^verbatim>\<open>Number::toString\<close>; any other by the integer \<open>n\<close> closest to
  \<open>100 * x\<close> (the larger of two), padded to three digits, with the point before the last two.
\<close>

definition toFixed2 :: "jsnum \<Rightarrow> string" where
  "toFixed2 v =
     (case v of
        Fin x \<Rightarrow>
          (let s = (if x < 0 then ''-'' else '''');
               a = \<bar>x\<bar>
           in if 10 ^ 21 \<le> a then s @ number_toString (Fin a)
              else
                let n = \<lfloor>a * 100 + 1 / 2\<rfloor>;
                    m = digits n;
                    m' = (if length m \<le> 2 then replicate (3 - length m) (CHR ''0'') @ m else m)
                in s @ take (length m' - 2) m' @ ''.'' @ drop (length m' - 2) m')
      | _ \<Rightarrow> number_toString v)"

section \<open>Numeric strings\<close>

text \<open>
  \<^verbatim>\<open>StringToNumber\<close>: the argument with white space trimmed is empty (the value 0), a
  \<^verbatim>\<open>StrDecimalLiteral\<close> (optional sign; \<^verbatim>\<open>Infinity\<close>, or digits with an optional fraction
  and an optional exponent part), or an unsigned binary, octal or hexadecimal integer
  literal; any other text is \<^verbatim>\<open>NaN\<close>.
\<close>

definition is_digit :: "char \<Rightarrow> bool" where
  "is_digit c = (c \<in> set ''0123456789'')"

definition is_hex_digit :: "char \<Rightarrow> bool" where
  "is_hex_digit c = (c \<in> set ''0123456789abcdefABCDEF'')"

definition digit_value :: "char \<Rightarrow> int" where
  "digit_value c =
     (if is_digit c then of_char c - 48
      else if c \<in> set ''abcdef'' then of_char c - 87
      else of_char c - 55)"

definition radix_value :: "int \<Rightarrow> string \<Rightarrow> int" where
  "radix_value r ds = foldl (\<lambda>n c. r * n + digit_value c) 0 ds"

definition negate :: "jsnum \<Rightarrow> jsnum" where
  "negate v = (case v of NaN \<Rightarrow> NaN | PosInf \<Rightarrow> NegInf | NegInf \<Rightarrow> PosInf | Fin x \<Rightarrow> Fin (- x))"

text \<open>The value of an optional \<^verbatim>\<open>ExponentPart\<close> that ends the literal; \<open>None\<close> when malformed.\<close>

definition ExponentPart :: "string \<Rightarrow> int option" where
  "ExponentPart r =
     (case r of
        [] \<Rightarrow> Some 0
      | c # ds \<Rightarrow>
          if c = CHR ''e'' \<or> c = CHR ''E'' then
            (let neg = (case ds of d # _ \<Rightarrow> d = CHR ''-'' | [] \<Rightarrow> False);
                 es = (case ds of d # es \<Rightarrow> if d = CHR ''+'' \<or> d = CHR ''-'' then es else ds
                       | [] \<Rightarrow> [])
             in if es \<noteq> [] \<and> list_all is_digit es
                then Some (if neg then - radix_value 10 es else radix_value 10 es)
                else None)
          else None)"

definition StrUnsignedDecimalLiteral :: "string \<Rightarrow> jsnum option" where
  "StrUnsignedDecimalLiteral u =
     (if u = ''Infinity'' then Some PosInf
      else
        let ip = takeWhile is_digit u;
            r1 = dropWhile is_digit u;
            fp = (case r1 of c # r \<Rightarrow> if c = CHR ''.'' then takeWhile is_digit r else []
                  | [] \<Rightarrow> []);
            r2 = (case r1 of c # r \<Rightarrow> if c = CHR ''.'' then dropWhile is_digit r else r1
                  | [] \<Rightarrow> [])
        in if ip = [] \<and> fp = [] then None
           else
             (case ExponentPart r2 of
                None \<Rightarrow> None
              | Some e \<Rightarrow>
                  Some (to_double
                    ((of_int (radix_value 10 ip)
                      + of_int (radix_value 10 fp) / 10 ^ length fp) * pow10 e))))"

definition StrDecimalLiteral :: "string \<Rightarrow> jsnum option" where
  "StrDecimalLiteral t =
     (case t of
        [] \<Rightarrow> None
      | c # u \<Rightarrow>
          if c = CHR ''+'' then StrUnsignedDecimalLiteral u
          else if c = CHR ''-'' then map_option negate (StrUnsignedDecimalLiteral u)
          else StrUnsignedDecimalLiteral t)"

definition NonDecimalIntegerLiteral :: "string \<Rightarrow> jsnum option" where
  "NonDecimalIntegerLiteral t =
     (case t of
        z # x # ds \<Rightarrow>
          if z = CHR ''0'' \<and> ds \<noteq> [] then
            (if (x = CHR ''x'' \<or> x = CHR ''X'') \<and> list_all is_hex_digit ds
               then Some (to_double (of_int (radix_value 16 ds)))
             else if (x = CHR ''o'' \<or> x = CHR ''O'') \<and> list_all (\<lambda>c. c \<in> set ''01234567'') ds
               then Some (to_double (of_int (radix_value 8 ds)))
             else if (x = CHR ''b'' \<or> x = CHR ''B'') \<and> list_all (\<lambda>c. c \<in> set ''01'') ds
               then Some (to_double (of_int (radix_value 2 ds)))
             else None)
          else None
      | _ \<Rightarrow> None)"

definition StringToNumber :: "string \<Rightarrow> jsnum" where
  "StringToNumber str =
     (let t = trim str
      in if t = [] then Fin 0
         else
           (case NonDecimalIntegerLiteral t of
              Some v \<Rightarrow> v
            | None \<Rightarrow> (case StrDecimalLiteral t of Some v \<Rightarrow> v | None \<Rightarrow> NaN)))"

section \<open>Values\<close>

text \<open>
  The values that reach the formatters are the scalar values of a decoded JSON row, and
  \<^verbatim>\<open>undefined\<close> for a property that is absent.
\<close>

datatype jsval = JUndefined | JNull | JBool bool | JNum jsnum | JStr string

text \<open>\<^verbatim>\<open>!v\<close> is \<open>\<not> truthy v\<close>.\<close>

definition truthy :: "jsval \<Rightarrow> bool" where
  "truthy v =
     (case v of
        JUndefined \<Rightarrow> False
      | JNull \<Rightarrow> False
      | JBool b \<Rightarrow> b
      | JNum n \<Rightarrow> n \<noteq> NaN \<and> n \<noteq> Fin 0
      | JStr s \<Rightarrow> s \<noteq> [])"

text \<open>\<^verbatim>\<open>String(v)\<close> and \<^verbatim>\<open>Number(v)\<close>.\<close>

definition String_of :: "jsval \<Rightarrow> string" where
  "String_of v =
     (case v of
        JUndefined \<Rightarrow> ''undefined''
      | JNull \<Rightarrow> ''null''
      | JBool b \<Rightarrow> (if b then ''true'' else ''false'')
      | JNum n \<Rightarrow> number_toString n
      | JStr s \<Rightarrow> s)"

definition Number_of :: "jsval \<Rightarrow> jsnum" where
  "Number_of v =
     (case v of
        JUndefined \<Rightarrow> NaN
      | JNull \<Rightarrow> Fin 0
      | JBool b \<Rightarrow> (if b then Fin 1 else Fin 0)
      | JNum n \<Rightarrow> n
      | JStr s \<Rightarrow> StringToNumber s)"

section \<open>CSV field formatters\<close>

text \<open>\<^verbatim>\<open>s.replace(/"/g, '""')\<close>.\<close>

definition double_quotes :: "string \<Rightarrow> string" where
  "double_quotes s = concat (map (\<lambda>c. if c = DQUOTE then [DQUOTE, DQUOTE] else [c]) s)"

text \<open>\<^verbatim>\<open>/[",\n]/.test(s)\<close>.\<close>

definition needs_quoting :: "string \<Rightarrow> bool" where
  "needs_quoting s = list_ex (\<lambda>c. c = DQUOTE \<or> c = CHR '','' \<or> c = LF) s"

definition csvEscape :: "jsval \<Rightarrow> string" where
  "csvEscape v =
     (if v = JNull \<or> v = JUndefined then []
      else
        let s = String_of v
        in if needs_quoting s then [DQUOTE] @ double_quotes s @ [DQUOTE] else s)"

definition formatNumber :: "jsval \<Rightarrow> string" where
  "formatNumber n =
     (if n = JNull \<or> n = JUndefined \<or> n = JStr [] then []
      else
        let num = Number_of n
        in if num = NaN then [] else toFixed2 num)"

section \<open>Dates\<close>

text \<open>
  A Date holds a time value: an integral number of milliseconds since the epoch, at most
  \<open>8.64 * 10 ^ 15\<close> in magnitude, or \<^verbatim>\<open>NaN\<close> (here \<open>None\<close>).  The calendar functions are the
  ones of the language specification; all of them work in UTC.
\<close>

definition msPerDay :: int where
  "msPerDay = 86400000"

definition Day :: "int \<Rightarrow> int" where
  "Day t = t div msPerDay"

definition DayFromYear :: "int \<Rightarrow> int" where
  "DayFromYear y = 365 * (y - 1970) + (y - 1969) div 4 - (y - 1901) div 100 + (y - 1601) div 400"

definition DaysInYear :: "int \<Rightarrow> int" where
  "DaysInYear y =
     (if y mod 4 \<noteq> 0 then 365 else if y mod 100 \<noteq> 0 then 366
      else if y mod 400 \<noteq> 0 then 365 else 366)"

text \<open>
  \<^verbatim>\<open>YearFromTime\<close> is the largest year that starts at or before the day; it is computed from
  an estimate that is off by at most one.
\<close>

definition YearFromDay :: "int \<Rightarrow> int" where
  "YearFromDay d =
     (let y = 1970 + (d * 400) div 146097
      in if d < DayFromYear y then y - 1 else if DayFromYear (y + 1) \<le> d then y + 1 else y)"

definition YearFromTime :: "int \<Rightarrow> int" where
  "YearFromTime t = YearFromDay (Day t)"

definition InLeapYear :: "int \<Rightarrow> int" where
  "InLeapYear t = (if DaysInYear (YearFromTime t) = 366 then 1 else 0)"

definition DayWithinYear :: "int \<Rightarrow> int" where
  "DayWithinYear t = Day t - DayFromYear (YearFromTime t)"

definition MonthFromTime :: "int \<Rightarrow> int" where
  "MonthFromTime t =
     (let d = DayWithinYear t; l = InLeapYear t
      in if d < 31 then 0
         else if d < 59 + l then 1
         else if d < 90 + l then 2
         else if d < 120 + l then 3
         else if d < 151 + l then 4
         else if d < 181 + l then 5
         else if d < 212 + l then 6
         else if d < 243 + l then 7
         else if d < 273 + l then 8
         else if d < 304 + l then 9
         else if d < 334 + l then 10
         else 11)"

definition DateFromTime :: "int \<Rightarrow> int" where
  "DateFromTime t =
     (let d = DayWithinYear t; l = InLeapYear t; m = MonthFromTime t
      in if m = 0 then d + 1
         else if m = 1 then d - 30
         else if m = 2 then d - 58 - l
         else if m = 3 then d - 89 - l
         else if m = 4 then d - 119 - l
         else if m = 5 then d - 150 - l
         else if m = 6 then d - 180 - l
         else if m = 7 then d - 211 - l
         else if m = 8 then d - 242 - l
         else if m = 9 then d - 272 - l
         else if m = 10 then d - 303 - l
         else d - 333 - l)"

definition HourFromTime :: "int \<Rightarrow> int" where
  "HourFromTime t = (t div 3600000) mod 24"

definition MinFromTime :: "int \<Rightarrow> int" where
  "MinFromTime t = (t div 60000) mod 60"

definition SecFromTime :: "int \<Rightarrow> int" where
  "SecFromTime t = (t div 1000) mod 60"

definition msFromTime :: "int \<Rightarrow> int" where
  "msFromTime t = t mod 1000"

definition pad :: "nat \<Rightarrow> int \<Rightarrow> string" where
  "pad w n = (let ds = digits n in replicate (w - length ds) (CHR ''0'') @ ds)"

text \<open>The year of an ISO string: four digits from 0 to 9999, else a sign and six digits.\<close>

definition iso_year :: "int \<Rightarrow> string" where
  "iso_year y =
     (if 0 \<le> y \<and> y \<le> 9999 then pad 4 y
      else (if y < 0 then ''-'' else ''+'') @ pad 6 \<bar>y\<bar>)"

datatype exn = RangeError

text \<open>\<^verbatim>\<open>Date.prototype.toISOString\<close>: throws on an invalid time value.\<close>

definition toISOString :: "int option \<Rightarrow> exn + string" where
  "toISOString tv =
     (case tv of
        None \<Rightarrow> Inl RangeError
      | Some t \<Rightarrow>
          Inr (iso_year (YearFromTime t) @ ''-'' @ pad 2 (MonthFromTime t + 1) @ ''-''
               @ pad 2 (DateFromTime t) @ ''T'' @ pad 2 (HourFromTime t) @ '':''
               @ pad 2 (MinFromTime t) @ '':'' @ pad 2 (SecFromTime t) @ ''.''
               @ pad 3 (msFromTime t) @ ''Z''))"

definition TimeClip :: "jsnum \<Rightarrow> int option" where
  "TimeClip v =
     (case v of
        Fin x \<Rightarrow>
          if 8640000000000000 < \<bar>x\<bar> then None
          else Some (if 0 \<le> x then \<lfloor>x\<rfloor> else \<lceil>x\<rceil>)
      | _ \<Rightarrow> None)"

text \<open>
  \<^verbatim>\<open>new Date(d)\<close>: a string is parsed, any other value is converted to a Number.  What
  \<^verbatim>\<open>Date.parse\<close> makes of a string is in part left to the host (the strings outside the
  date-time string format, the local time zone), so the host's function is the parameter
  \<open>parse\<close>; its result is a time value or \<^verbatim>\<open>NaN\<close>.
\<close>

definition new_Date :: "(string \<Rightarrow> jsnum) \<Rightarrow> jsval \<Rightarrow> int option" where
  "new_Date parse d = (case d of JStr s \<Rightarrow> TimeClip (parse s) | _ \<Rightarrow> TimeClip (Number_of d))"

text \<open>Element 0 of \<^verbatim>\<open>s.split(c)\<close>.\<close>

definition split_first :: "char \<Rightarrow> string \<Rightarrow> string" where
  "split_first c s = takeWhile (\<lambda>x. x \<noteq> c) s"

definition formatDate :: "(string \<Rightarrow> jsnum) \<Rightarrow> jsval \<Rightarrow> string" where
  "formatDate parse d =
     (if \<not> truthy d then []
      else
        let date = new_Date parse d
        in if date = None then []
           else (case toISOString date of
                   Inl e \<Rightarrow> []
                 | Inr str \<Rightarrow> split_first (CHR ''T'') str))"

subsection \<open>A host \<^verbatim>\<open>Date.parse\<close>\<close>

text \<open>
  One host function, for the concrete inputs: the date-time string format of the language
  specification (\<^verbatim>\<open>YYYY\<close>, \<^verbatim>\<open>YYYY-MM\<close> or \<^verbatim>\<open>YYYY-MM-DD\<close>, the year also as a sign and six
  digits; optionally \<^verbatim>\<open>THH:mm\<close>, \<^verbatim>\<open>THH:mm:ss\<close> or \<^verbatim>\<open>THH:mm:ss.sss\<close>; optionally \<^verbatim>\<open>Z\<close> or an
  offset \<^verbatim>\<open>+HH:mm\<close>, \<^verbatim>\<open>-HH:mm\<close>), on a host whose local time zone is UTC and which rejects every
  other string.  Hosts in use accept more strings than this one; it stands for them only at
  the closed inputs below, and every general statement is about an arbitrary \<open>parse\<close>.
\<close>

definition take_digits :: "nat \<Rightarrow> string \<Rightarrow> (int \<times> string) option" where
  "take_digits n s =
     (if n \<le> length s \<and> list_all is_digit (take n s)
      then Some (radix_value 10 (take n s), drop n s) else None)"

definition month_start :: "int \<Rightarrow> int \<Rightarrow> int" where
  "month_start l m =
     (if m = 0 then 0 else if m = 1 then 31 else if m = 2 then 59 + l
      else if m = 3 then 90 + l else if m = 4 then 120 + l else if m = 5 then 151 + l
      else if m = 6 then 181 + l else if m = 7 then 212 + l else if m = 8 then 243 + l
      else if m = 9 then 273 + l else if m = 10 then 304 + l else if m = 11 then 334 + l
      else 365 + l)"

definition leap :: "int \<Rightarrow> int" where
  "leap y = (if DaysInYear y = 366 then 1 else 0)"

text \<open>\<^verbatim>\<open>MakeDay\<close> for a month from 0 to 11: the day number of a calendar date.\<close>

definition MakeDay :: "int \<Rightarrow> int \<Rightarrow> int \<Rightarrow> int" where
  "MakeDay y m dt = DayFromYear y + month_start (leap y) m + dt - 1"

definition parse_year :: "string \<Rightarrow> (int \<times> string) option" where
  "parse_year s =
     (case s of
        [] \<Rightarrow> None
      | c # r \<Rightarrow>
          if c = CHR ''+'' then take_digits 6 r
          else if c = CHR ''-'' then
            (case take_digits 6 r of
               None \<Rightarrow> None
             | Some (y, r') \<Rightarrow> if y = 0 then None else Some (- y, r'))
          else take_digits 4 s)"

text \<open>An optional \<open>c\<close> followed by \<open>n\<close> digits; the default when \<open>c\<close> does not follow.\<close>

definition opt_field :: "char \<Rightarrow> nat \<Rightarrow> int \<Rightarrow> string \<Rightarrow> (int \<times> string) option" where
  "opt_field c n dflt s =
     (case s of
        [] \<Rightarrow> Some (dflt, s)
      | x # r \<Rightarrow> if x = c then take_digits n r else Some (dflt, s))"

definition parse_zone :: "string \<Rightarrow> int option" where
  "parse_zone s =
     (case s of
        [] \<Rightarrow> Some 0
      | c # r \<Rightarrow>
          if c = CHR ''Z'' then (if r = [] then Some 0 else None)
          else if c = CHR ''+'' \<or> c = CHR ''-'' then
            (case take_digits 2 r of
               None \<Rightarrow> None
             | Some (h, r1) \<Rightarrow>
                 (case r1 of
                    [] \<Rightarrow> None
                  | k # r2 \<Rightarrow>
                      (case take_digits 2 r2 of
                         None \<Rightarrow> None
                       | Some (m, r3) \<Rightarrow>
                           if k = CHR '':'' \<and> r3 = [] \<and> h \<le> 23 \<and> m \<le> 59
                           then Some ((if c = CHR ''-'' then - 1 else 1) * (h * 60 + m) * 60000)
                           else None)))
          else None)"

definition parse_time :: "string \<Rightarrow> int option" where
  "parse_time s =
     (case take_digits 2 s of
        None \<Rightarrow> None
      | Some (h, r1) \<Rightarrow>
          (case r1 of
             [] \<Rightarrow> None
           | k # r2 \<Rightarrow>
               (case take_digits 2 r2 of
                  None \<Rightarrow> None
                | Some (mi, r3) \<Rightarrow>
                    (case opt_field (CHR '':'') 2 0 r3 of
                       None \<Rightarrow> None
                     | Some (sec, r4) \<Rightarrow>
                         (case (if r3 = r4 then Some (0, r4) else opt_field (CHR ''.'') 3 0 r4) of
                            None \<Rightarrow> None
                          | Some (ms, r5) \<Rightarrow>
                              (case parse_zone r5 of
                                 None \<Rightarrow> None
                               | Some off \<Rightarrow>
                                   if k = CHR '':'' \<and> mi \<le> 59 \<and> sec \<le> 59
                                      \<and> (h \<le> 23 \<or> h = 24 \<and> mi = 0 \<and> sec = 0 \<and> ms = 0)
                                   then Some (h * 3600000 + mi * 60000 + sec * 1000 + ms - off)
                                   else None))))))"

definition Date_parse_utc :: "string \<Rightarrow> jsnum" where
  "Date_parse_utc s =
     (case parse_year s of
        None \<Rightarrow> NaN
      | Some (y, r1) \<Rightarrow>
          (case opt_field (CHR ''-'') 2 1 r1 of
             None \<Rightarrow> NaN
           | Some (m, r2) \<Rightarrow>
               (case (if r1 = r2 then Some (1, r2) else opt_field (CHR ''-'') 2 1 r2) of
                  None \<Rightarrow> NaN
                | Some (d, r3) \<Rightarrow>
                    (case (case r3 of [] \<Rightarrow> Some 0
                           | c # r4 \<Rightarrow> if c = CHR ''T'' then parse_time r4 else None) of
                       None \<Rightarrow> NaN
                     | Some tm \<Rightarrow>
                         if 1 \<le> m \<and> m \<le> 12 \<and> 1 \<le> d
                            \<and> d \<le> month_start (leap y) m - month_start (leap y) (m - 1)
                         then Fin (of_int (MakeDay y (m - 1) d * msPerDay + tm))
                         else NaN))))"

section \<open>The receipt export endpoint\<close>

subsection \<open>The store collaborator\<close>

text \<open>
  The row that the query selects: \<^verbatim>\<open>id, merchant, purchase_at, total, currency, category,
  receipt_items(name, quantity, price)\<close>.  The columns \<^verbatim>\<open>id\<close> and \<^verbatim>\<open>total\<close> are named
  \<open>receipt_id\<close> and \<open>total_amount\<close> here.  \<open>receipt_items\<close> is \<open>None\<close> when the property is not
  an array.
\<close>

record line_item =
  name :: jsval
  quantity :: jsval
  price :: jsval

record receipt =
  receipt_id :: jsval
  merchant :: jsval
  purchase_at :: jsval
  total_amount :: jsval
  currency :: jsval
  category :: jsval
  receipt_items :: "line_item list option"

text \<open>
  The table \<^verbatim>\<open>receipts\<close> of the external store: each row has its owner in the column
  \<^verbatim>\<open>user_id\<close>.  A store that is \<open>failing\<close> answers every query with an error.
\<close>

record receipts_row =
  user_id :: string
  columns :: receipt

record store =
  receipts :: "receipts_row list"
  failing :: bool

datatype query_result = QueryError | QueryData "receipt option"

text \<open>
  \<^verbatim>\<open>.eq("id", receiptId).eq("user_id", userId).maybeSingle()\<close>: one query with both
  filters; no row is \<^verbatim>\<open>data = null\<close>, one row is that row, several rows are an error.
\<close>

definition maybeSingle :: "store \<Rightarrow> string \<Rightarrow> string \<Rightarrow> query_result" where
  "maybeSingle st receiptId userId =
     (if failing st then QueryError
      else
        (case filter (\<lambda>r. receipt_id (columns r) = JStr receiptId \<and> user_id r = userId)
                (receipts st) of
           [] \<Rightarrow> QueryData None
         | [r] \<Rightarrow> QueryData (Some (columns r))
         | _ \<Rightarrow> QueryError))"

subsection \<open>Requests, replies, environment\<close>

record request =
  headers :: "string \<rightharpoonup> string"
  params_id :: "string option"

datatype body = ErrorBody string | CsvBody string

record reply =
  status :: nat
  reply_headers :: "(string \<times> string) list"
  body :: body

text \<open>
  The environment of the process: the variable \<^verbatim>\<open>SUPABASE_JWT_SECRET\<close>, the store client
  (\<open>None\<close> when it was not created), and the two host functions the handler calls:
  \<^verbatim>\<open>jwt.verify\<close>, which throws (\<open>None\<close>) or returns a payload, of which the handler reads
  \<^verbatim>\<open>decoded?.sub\<close>, and \<^verbatim>\<open>Date.parse\<close>.
\<close>

record env =
  SUPABASE_JWT_SECRET :: "string option"
  supabase :: "store option"
  jwt_verify :: "string \<Rightarrow> string \<Rightarrow> jsval option"
  Date_parse :: "string \<Rightarrow> jsnum"

text \<open>Every access to the store is recorded.\<close>

datatype event = StoreQuery string string

definition send_error :: "nat \<Rightarrow> string \<Rightarrow> reply" where
  "send_error code msg = \<lparr>status = code, reply_headers = [], body = ErrorBody msg\<rparr>"

subsection \<open>The token verifier\<close>

text \<open>\<open>Inl\<close>: the reply that was sent, and \<^verbatim>\<open>null\<close> returned; \<open>Inr\<close>: the subject.\<close>

definition authenticate :: "env \<Rightarrow> request \<Rightarrow> reply + string" where
  "authenticate e request =
     (let auth = (case headers request ''authorization'' of
                    None \<Rightarrow> headers request ''Authorization''
                  | Some a \<Rightarrow> if a \<noteq> [] then Some a else headers request ''Authorization'')
      in case auth of
           None \<Rightarrow> Inl (send_error 401 ''Missing Authorization Bearer token'')
         | Some a \<Rightarrow>
             if a = [] \<or> \<not> startsWith a ''Bearer ''
             then Inl (send_error 401 ''Missing Authorization Bearer token'')
             else
               let token = trim (drop (length ''Bearer '') a)
               in (case SUPABASE_JWT_SECRET e of
                     None \<Rightarrow> Inl (send_error 500 ''Server missing SUPABASE_JWT_SECRET env variable'')
                   | Some jwtSecret \<Rightarrow>
                       if jwtSecret = []
                       then Inl (send_error 500 ''Server missing SUPABASE_JWT_SECRET env variable'')
                       else
                         (case jwt_verify e token jwtSecret of
                            None \<Rightarrow> Inl (send_error 401 ''Invalid or expired token'')
                          | Some sub \<Rightarrow>
                              (case sub of
                                 JStr u \<Rightarrow>
                                   if u = []
                                   then Inl (send_error 401 ''Invalid token: sub claim missing'')
                                   else Inr u
                               | _ \<Rightarrow> Inl (send_error 401 ''Invalid token: sub claim missing'')))))"

subsection \<open>The handler\<close>

text \<open>\<^verbatim>\<open>/^[0-9a-fA-F-]{32,36}$/.test(receiptId)\<close>.\<close>

definition is_id_char :: "char \<Rightarrow> bool" where
  "is_id_char c = (c \<in> set ''0123456789abcdefABCDEF-'')"

definition valid_receipt_id :: "string \<Rightarrow> bool" where
  "valid_receipt_id s = (32 \<le> length s \<and> length s \<le> 36 \<and> list_all is_id_char s)"

text \<open>\<^verbatim>\<open>item.quantity ?? ""\<close>.\<close>

definition or_empty :: "jsval \<Rightarrow> jsval" where
  "or_empty v = (if v = JNull \<or> v = JUndefined then JStr [] else v)"

definition item_line :: "line_item \<Rightarrow> string" where
  "item_line item =
     csvEscape (name item) @ '','' @ csvEscape (or_empty (quantity item)) @ '',''
     @ csvEscape (JStr (formatNumber (price item)))"

text \<open>The lines pushed, in order, and the document: the lines joined by a newline.\<close>

definition csv_lines :: "(string \<Rightarrow> jsnum) \<Rightarrow> receipt \<Rightarrow> string list" where
  "csv_lines parse data =
     [''Merchant,'' @ csvEscape (merchant data),
      ''Purchase Date,'' @ csvEscape (JStr (formatDate parse (purchase_at data))),
      ''Total,'' @ csvEscape (JStr (formatNumber (total_amount data))),
      ''Currency,'' @ csvEscape (currency data),
      ''Category,'' @ csvEscape (category data),
      ''Receipt ID,'' @ csvEscape (receipt_id data),
      [],
      ''Items'',
      ''Name,Quantity,Price'']
     @ map item_line (case receipt_items data of Some items \<Rightarrow> items | None \<Rightarrow> [])"

definition buildReceiptCsv :: "(string \<Rightarrow> jsnum) \<Rightarrow> receipt \<Rightarrow> string" where
  "buildReceiptCsv parse data = join [LF] (csv_lines parse data)"

definition export_csv :: "env \<Rightarrow> request \<Rightarrow> reply \<times> event list" where
  "export_csv e request =
     (case authenticate e request of
        Inl sent \<Rightarrow> (sent, [])
      | Inr userId \<Rightarrow>
          (case params_id request of
             None \<Rightarrow> (send_error 400 ''Invalid receipt id format'', [])
           | Some receiptId \<Rightarrow>
               if receiptId = [] \<or> \<not> valid_receipt_id receiptId
               then (send_error 400 ''Invalid receipt id format'', [])
               else
                 (case supabase e of
                    None \<Rightarrow> (send_error 500 ''Supabase client not initialized on server'', [])
                  | Some st \<Rightarrow>
                      (case maybeSingle st receiptId userId of
                         QueryError \<Rightarrow>
                           (send_error 500 ''Database query failed'',
                            [StoreQuery receiptId userId])
                       | QueryData None \<Rightarrow>
                           (send_error 404 ''Receipt not found'', [StoreQuery receiptId userId])
                       | QueryData (Some data) \<Rightarrow>
                           (\<lparr>status = 200,
                             reply_headers =
                               [(''Content-Type'', ''text/csv; charset=utf-8''),
                                (''Content-Disposition'',
                                 ''attachment; filename=receipt_'' @ receiptId @ ''.csv'')],
                             body = CsvBody (buildReceiptCsv (Date_parse e) data)\<rparr>,
                            [StoreQuery receiptId userId])))))"

section \<open>The receipt analysis endpoint\<close>

subsection \<open>extractJson\<close>

text \<open>
  The two regular expressions are \<^verbatim>\<open>```json\s*([\s\S]*?)\s*```\<close> with the flag \<^verbatim>\<open>i\<close> and
  \<^verbatim>\<open>```\s*([\s\S]*?)\s*```\<close>.  Each piece is matched the way a backtracking matcher does it:
  a greedy \<^verbatim>\<open>\s*\<close> takes a white space character when the rest then matches and gives it
  back otherwise; the lazy group takes one more character only when the rest does not match;
  \<^verbatim>\<open>exec\<close> tries the start positions from the left.  The result is the text of group 1.
\<close>

definition FENCE :: string where
  "FENCE = [BACKTICK, BACKTICK, BACKTICK]"

text \<open>
  Under the flag \<^verbatim>\<open>i\<close> two characters match when their upper-case forms agree; for the
  letters of the pattern these are the two ASCII cases of the letter.
\<close>

definition canonicalize :: "char \<Rightarrow> char" where
  "canonicalize c =
     (if (97::nat) \<le> of_char c \<and> of_char c \<le> (122::nat) then char_of (of_char c - (32::nat))
      else c)"

fun match_literal :: "bool \<Rightarrow> string \<Rightarrow> string \<Rightarrow> string option" where
  "match_literal ic [] s = Some s"
| "match_literal ic (p # ps) [] = None"
| "match_literal ic (p # ps) (c # cs) =
     (if (if ic then canonicalize c = canonicalize p else c = p)
      then match_literal ic ps cs else None)"

text \<open>\<^verbatim>\<open>\s*```\<close> at the start of the text.\<close>

fun match_close :: "string \<Rightarrow> bool" where
  "match_close [] = False"
| "match_close (c # cs) = ((is_space c \<and> match_close cs) \<or> startsWith (c # cs) FENCE)"

text \<open>\<^verbatim>\<open>([\s\S]*?)\s*```\<close> at the start of the text: the group.\<close>

fun match_group :: "string \<Rightarrow> string option" where
  "match_group [] = None"
| "match_group (c # cs) =
     (if match_close (c # cs) then Some [] else map_option ((#) c) (match_group cs))"

text \<open>\<^verbatim>\<open>\s*([\s\S]*?)\s*```\<close> at the start of the text: the group.\<close>

fun match_body :: "string \<Rightarrow> string option" where
  "match_body [] = None"
| "match_body (c # cs) =
     (if is_space c
      then (case match_body cs of Some g \<Rightarrow> Some g | None \<Rightarrow> match_group (c # cs))
      else match_group (c # cs))"

text \<open>\<^verbatim>\<open>regex.exec(s)\<close> for the opening literal \<open>lit\<close>: group 1 of the leftmost match.\<close>

fun exec_fence :: "bool \<Rightarrow> string \<Rightarrow> string \<Rightarrow> string option" where
  "exec_fence ic lit [] = None"
| "exec_fence ic lit (c # cs) =
     (case (case match_literal ic lit (c # cs) of
              None \<Rightarrow> None
            | Some rest \<Rightarrow> match_body rest) of
        Some g \<Rightarrow> Some g
      | None \<Rightarrow> exec_fence ic lit cs)"

definition brace_rule :: "string \<Rightarrow> string option" where
  "brace_rule s =
     (let first = indexOf s (CHR ''{''); last = lastIndexOf s (CHR ''}'')
      in if first \<noteq> - 1 \<and> last \<noteq> - 1 \<and> last > first
         then Some (slice s first (last + 1)) else None)"

definition fence_rule :: "string \<Rightarrow> string option" where
  "fence_rule s =
     (case exec_fence False FENCE s of
        None \<Rightarrow> brace_rule s
      | Some g \<Rightarrow> if g \<noteq> [] then Some (trim g) else brace_rule s)"

definition extractJson :: "string \<Rightarrow> string option" where
  "extractJson s =
     (if s = [] then None
      else
        (case exec_fence True (FENCE @ ''json'') s of
           None \<Rightarrow> fence_rule s
         | Some g \<Rightarrow> if g \<noteq> [] then Some (trim g) else fence_rule s))"

subsection \<open>The handler\<close>

text \<open>
  The collaborators are parameters: the model call, which fails with a message or returns a
  response whose text may be absent, and \<^verbatim>\<open>JSON.parse\<close>, which throws an error with a
  message or returns a value.  \<open>apiKey\<close> is the value of
  \<^verbatim>\<open>process.env.GEMINI_API_KEY || process.env.GOOGLE_API_KEY\<close>, \<open>data\<close> the first file part of
  the request.  A reply is its status and its body; the message of a caught error is
  \<^verbatim>\<open>err?.message ?? String(err)\<close>.
\<close>

record upload =
  file_bytes :: "nat list"
  mimetype :: "string option"

datatype 'j analysis_body =
  AnalysisError string
| ModelFormatError string string
| AnalysisFailed string string
| Parsed 'j

definition analyze_receipt ::
  "(nat list \<Rightarrow> string \<Rightarrow> string + string option) \<Rightarrow> (string \<Rightarrow> string + 'j)
     \<Rightarrow> string option \<Rightarrow> upload option \<Rightarrow> nat \<times> 'j analysis_body" where
  "analyze_receipt generateContent JSON_parse apiKey data =
     (case data of
        None \<Rightarrow>
          (400, AnalysisError ''No file provided. Send multipart form with an image file.'')
      | Some file \<Rightarrow>
          if apiKey = None \<or> apiKey = Some []
          then (500, AnalysisError ''Server missing GEMINI_API_KEY environment variable'')
          else
            (case generateContent (file_bytes file)
                    (case mimetype file of
                       None \<Rightarrow> ''image/jpeg''
                     | Some m \<Rightarrow> if m = [] then ''image/jpeg'' else m) of
               Inl message \<Rightarrow> (500, AnalysisFailed ''Failed to analyze receipt'' message)
             | Inr response_text \<Rightarrow>
                 let text = (case response_text of None \<Rightarrow> [] | Some t \<Rightarrow> t)
                 in (case extractJson text of
                       None \<Rightarrow> (502, ModelFormatError ''Model did not return JSON'' text)
                     | Some jsonText \<Rightarrow>
                         if jsonText = []
                         then (502, ModelFormatError ''Model did not return JSON'' text)
                         else
                           (case JSON_parse jsonText of
                              Inl message \<Rightarrow>
                                (500, AnalysisFailed ''Failed to analyze receipt'' message)
                            | Inr parsed \<Rightarrow> (200, Parsed parsed)))))"

section \<open>Reference notions for the properties\<close>

subsection \<open>Reading one CSV field\<close>

text \<open>
  Standard CSV quoting, with the newline that separates the lines of the document: a field
  that starts with a double quote extends to its closing quote, which ends the field, and a
  doubled quote inside stands for one quote; any other field is the text itself and holds
  no double quote, comma or newline.
\<close>

fun quoted_field :: "string \<Rightarrow> string option" where
  "quoted_field [] = None"
| "quoted_field [c] = (if c = DQUOTE then Some [] else None)"
| "quoted_field (c # d # r) =
     (if c = DQUOTE then (if d = DQUOTE then map_option ((#) DQUOTE) (quoted_field r) else None)
      else map_option ((#) c) (quoted_field (d # r)))"

definition parse_csv_field :: "string \<Rightarrow> string option" where
  "parse_csv_field f =
     (case f of
        [] \<Rightarrow> Some []
      | c # r \<Rightarrow>
          if c = DQUOTE then quoted_field r
          else if list_ex (\<lambda>x. x = DQUOTE \<or> x = CHR '','' \<or> x = LF) f then None
          else Some f)"

subsection \<open>Fenced blocks\<close>

text \<open>
  A fenced block opened by \<open>lit\<close>: the leftmost occurrence of \<open>lit\<close> and the leftmost
  closing fence after it.  The content is the text between them.  Nothing has to end
  \<open>lit\<close>: with the fence and the letters \<^verbatim>\<open>json\<close> for \<open>lit\<close>, a block whose label only begins
  with these letters, such as \<^verbatim>\<open>json5\<close>, is found too, and the rest of its label is the start
  of the content; with the bare fence for \<open>lit\<close>, a label is part of the content.
\<close>

fun after_literal :: "bool \<Rightarrow> string \<Rightarrow> string \<Rightarrow> string option" where
  "after_literal ic lit [] = None"
| "after_literal ic lit (c # cs) =
     (case match_literal ic lit (c # cs) of
        Some rest \<Rightarrow> Some rest
      | None \<Rightarrow> after_literal ic lit cs)"

fun before_fence :: "string \<Rightarrow> string option" where
  "before_fence [] = None"
| "before_fence (c # cs) =
     (if startsWith (c # cs) FENCE then Some [] else map_option ((#) c) (before_fence cs))"

definition fenced_block :: "bool \<Rightarrow> string \<Rightarrow> string \<Rightarrow> string option" where
  "fenced_block ic lit s =
     (case after_literal ic lit s of
        None \<Rightarrow> None
      | Some rest \<Rightarrow> map_option trim (before_fence rest))"

text \<open>The text from the first opening brace to the last closing brace after it.\<close>

definition brace_span :: "string \<Rightarrow> string option" where
  "brace_span s =
     (let t = dropWhile (\<lambda>c. c \<noteq> CHR ''{'') s
      in if CHR ''}'' \<in> set t then Some (rev (dropWhile (\<lambda>c. c \<noteq> CHR ''}'') (rev t)))
         else None)"

text \<open>
  A fenced block labelled json, as the specification words it: the label is \<^verbatim>\<open>json\<close>, in
  either case, and ends there, at white space, at a fence or at the end of the text.
\<close>

definition label_end :: "string \<Rightarrow> bool" where
  "label_end r = (case r of [] \<Rightarrow> True | c # _ \<Rightarrow> is_space c \<or> c = BACKTICK)"

fun after_label :: "string \<Rightarrow> string option" where
  "after_label [] = None"
| "after_label (c # cs) =
     (case match_literal True (FENCE @ ''json'') (c # cs) of
        Some rest \<Rightarrow> if label_end rest then Some rest else after_label cs
      | None \<Rightarrow> after_label cs)"

definition labelled_block :: "string \<Rightarrow> string option" where
  "labelled_block s =
     (case after_label s of
        None \<Rightarrow> None
      | Some rest \<Rightarrow> map_option trim (before_fence rest))"

text \<open>The priority order as the specification words it.\<close>

definition spec_extractJson :: "string \<Rightarrow> string option" where
  "spec_extractJson s =
     (case labelled_block s of
        Some inner \<Rightarrow> Some inner
      | None \<Rightarrow>
          (case fenced_block False FENCE s of
             Some inner \<Rightarrow> Some inner
           | None \<Rightarrow> brace_span s))"

text \<open>
  The order that the code follows: a block is found by its opening letters alone (the fence
  and \<^verbatim>\<open>json\<close> for rule 1, the fence for rule 2), and a block whose trimmed content is empty
  does not count.
\<close>

definition nonempty_block :: "bool \<Rightarrow> string \<Rightarrow> string \<Rightarrow> string option" where
  "nonempty_block ic lit s =
     (case fenced_block ic lit s of
        None \<Rightarrow> None
      | Some inner \<Rightarrow> if inner = [] then None else Some inner)"

definition amended_extractJson :: "string \<Rightarrow> string option" where
  "amended_extractJson s =
     (case nonempty_block True (FENCE @ ''json'') s of
        Some inner \<Rightarrow> Some inner
      | None \<Rightarrow>
          (case nonempty_block False FENCE s of
             Some inner \<Rightarrow> Some inner
           | None \<Rightarrow> brace_span s))"

subsection \<open>Calendar dates\<close>

text \<open>A date \<^verbatim>\<open>YYYY-MM-DD\<close>: ten characters, digits but for the two hyphens.\<close>

definition is_YYYY_MM_DD :: "string \<Rightarrow> bool" where
  "is_YYYY_MM_DD s =
     (length s = 10 \<and> list_all is_digit (take 4 s) \<and> s ! 4 = CHR ''-''
      \<and> list_all is_digit (take 2 (drop 5 s)) \<and> s ! 7 = CHR ''-''
      \<and> list_all is_digit (drop 8 s))"

text \<open>The days of month \<open>m\<close> (from 1 to 12) of year \<open>y\<close>.\<close>

definition days_in_month :: "int \<Rightarrow> int \<Rightarrow> int" where
  "days_in_month y m =
     (if m = 2 then (if DaysInYear y = 366 then 29 else 28)
      else if m = 4 \<or> m = 6 \<or> m = 9 \<or> m = 11 then 30 else 31)"

definition valid_date :: "int \<Rightarrow> int \<Rightarrow> int \<Rightarrow> bool" where
  "valid_date y m d = (1 \<le> m \<and> m \<le> 12 \<and> 1 \<le> d \<and> d \<le> days_in_month y m)"

subsection \<open>Two-decimal amounts\<close>

text \<open>Digits, a point, two digits; an optional minus sign in front.\<close>

definition two_decimals :: "string \<Rightarrow> bool" where
  "two_decimals s =
     (let u = (case s of c # r \<Rightarrow> if c = CHR ''-'' then r else s | [] \<Rightarrow> s)
      in 4 \<le> length u \<and> list_all is_digit (take (length u - 3) u)
         \<and> u ! (length u - 3) = CHR ''.'' \<and> list_all is_digit (drop (length u - 2) u))"

subsection \<open>Requests without a bearer credential\<close>

text \<open>
  The Authorization header, under either spelling of its name, is absent or does not begin
  with \<^verbatim>\<open>Bearer \<close>.
\<close>

definition no_bearer :: "request \<Rightarrow> bool" where
  "no_bearer request =
     ((case headers request ''authorization'' of
         None \<Rightarrow> True
       | Some a \<Rightarrow> \<not> startsWith a ''Bearer '')
      \<and> (case headers request ''Authorization'' of
            None \<Rightarrow> True
          | Some a \<Rightarrow> \<not> startsWith a ''Bearer ''))"

section \<open>Example inputs\<close>

text \<open>
  The JSON text \<^verbatim>\<open>{"a":1}\<close>.  A store with one receipt, owned by \<^verbatim>\<open>U2\<close>; a verifier that
  accepts one token, for the subject \<^verbatim>\<open>U1\<close>; a request of \<^verbatim>\<open>U1\<close> for that receipt.
\<close>

definition example_json :: string where
  "example_json = [CHR ''{'', DQUOTE, CHR ''a'', DQUOTE, CHR '':'', CHR ''1'', CHR ''}'']"

definition example_id :: string where
  "example_id = ''0123456789abcdef0123456789ABCDEF''"

definition example_receipt :: receipt where
  "example_receipt =
     \<lparr>receipt_id = JStr example_id, merchant = JStr ''Cafe'',
      purchase_at = JStr ''2024-03-05T10:00:00Z'', total_amount = JNum (Fin (25 / 2)),
      currency = JStr ''USD'', category = JNull, receipt_items = Some []\<rparr>"

definition example_store :: store where
  "example_store = \<lparr>receipts = [\<lparr>user_id = ''U2'', columns = example_receipt\<rparr>], failing = False\<rparr>"

definition example_verify :: "string \<Rightarrow> string \<Rightarrow> jsval option" where
  "example_verify token secret =
     (if token = ''t1'' \<and> secret = ''s3cret'' then Some (JStr ''U1'') else None)"

definition example_env :: env where
  "example_env =
     \<lparr>SUPABASE_JWT_SECRET = Some ''s3cret'', supabase = Some example_store,
      jwt_verify = example_verify, Date_parse = Date_parse_utc\<rparr>"

definition example_request :: request where
  "example_request =
     \<lparr>headers = [''authorization'' \<mapsto> ''Bearer t1''], params_id = Some example_id\<rparr>"

section \<open>Properties of the CSV field formatters\<close>

lemma double_quotes_simps:
  "double_quotes [] = []"
  "double_quotes (c # cs) = (if c = DQUOTE then [DQUOTE, DQUOTE] else [c]) @ double_quotes cs"
  by (simp_all add: double_quotes_def)

lemma double_quotes_append: "double_quotes (a @ b) = double_quotes a @ double_quotes b"
  by (simp add: double_quotes_def)

lemma quoted_field_Cons:
  "c \<noteq> DQUOTE \<Longrightarrow> r \<noteq> [] \<Longrightarrow> quoted_field (c # r) = map_option ((#) c) (quoted_field r)"
  by (cases r) simp_all

lemma quoted_field_double_quotes: "quoted_field (double_quotes s @ [DQUOTE]) = Some s"
proof (induction s)
  case Nil
  show ?case by (simp add: double_quotes_simps)
next
  case (Cons c cs)
  show ?case
  proof (cases "c = DQUOTE")
    case True
    then show ?thesis using Cons.IH by (simp add: double_quotes_simps)
  next
    case False
    then show ?thesis using Cons.IH by (simp add: double_quotes_simps quoted_field_Cons)
  qed
qed

lemma needs_quoting_iff:
  "needs_quoting s = (DQUOTE \<in> set s \<or> CHR '','' \<in> set s \<or> LF \<in> set s)"
  by (auto simp: needs_quoting_def list_ex_iff)

text \<open>
  C7.  Reading \<open>csvEscape s\<close> back as one CSV field gives \<open>s\<close>, for every string \<open>s\<close>.  The
  value is wrapped in double quotes, with every double quote inside doubled, exactly when it
  holds a double quote, a comma or a newline, and is left as it is otherwise; \<^verbatim>\<open>null\<close> and
  \<^verbatim>\<open>undefined\<close> become the empty string.
\<close>

theorem csvEscape_round_trip:
  "parse_csv_field (csvEscape (JStr s)) = Some s
   \<and> csvEscape (JStr s) =
       (if DQUOTE \<in> set s \<or> CHR '','' \<in> set s \<or> LF \<in> set s
        then [DQUOTE] @ double_quotes s @ [DQUOTE] else s)
   \<and> double_quotes (a @ [DQUOTE] @ b) = double_quotes a @ [DQUOTE, DQUOTE] @ double_quotes b
   \<and> double_quotes (filter (\<lambda>c. c \<noteq> DQUOTE) a) = filter (\<lambda>c. c \<noteq> DQUOTE) a
   \<and> csvEscape JNull = [] \<and> csvEscape JUndefined = []"
proof -
  have 1: "parse_csv_field (csvEscape (JStr s)) = Some s"
  proof (cases "needs_quoting s")
    case True
    then show ?thesis
      by (simp add: csvEscape_def String_of_def parse_csv_field_def quoted_field_double_quotes)
  next
    case False
    then show ?thesis
      by (cases s) (auto simp: csvEscape_def String_of_def parse_csv_field_def needs_quoting_def)
  qed
  have 2: "csvEscape (JStr s) =
       (if DQUOTE \<in> set s \<or> CHR '','' \<in> set s \<or> LF \<in> set s
        then [DQUOTE] @ double_quotes s @ [DQUOTE] else s)"
    by (simp add: csvEscape_def String_of_def needs_quoting_iff)
  have 3: "double_quotes (a @ [DQUOTE] @ b) = double_quotes a @ [DQUOTE, DQUOTE] @ double_quotes b"
    by (simp add: double_quotes_append double_quotes_simps)
  have 4: "double_quotes (filter (\<lambda>c. c \<noteq> DQUOTE) a) = filter (\<lambda>c. c \<noteq> DQUOTE) a"
    by (induction a) (simp_all add: double_quotes_simps)
  have 5: "csvEscape JNull = [] \<and> csvEscape JUndefined = []"
    by (simp add: csvEscape_def)
  from 1 2 3 4 5 show ?thesis by blast
qed

section \<open>Properties of the export endpoint\<close>

lemma authenticate_no_bearer:
  "no_bearer request \<Longrightarrow>
     authenticate e request = Inl (send_error 401 ''Missing Authorization Bearer token'')"
  by (auto simp: authenticate_def no_bearer_def split: option.splits)

lemma valid_receipt_id_iff:
  "valid_receipt_id s = (32 \<le> length s \<and> length s \<le> 36 \<and> set s \<subseteq> set ''0123456789abcdefABCDEF-'')"
  unfolding valid_receipt_id_def is_id_char_def list_all_iff by blast

lemma export_csv_events:
  "snd (export_csv e request) \<noteq> [] \<Longrightarrow>
     \<exists>u rid. authenticate e request = Inr u \<and> params_id request = Some rid
       \<and> valid_receipt_id rid \<and> snd (export_csv e request) = [StoreQuery rid u]"
  unfolding export_csv_def
  by (auto split: sum.splits option.splits if_splits query_result.splits)

lemma authenticate_supabase [simp]:
  "authenticate (e\<lparr>supabase := x\<rparr>) request = authenticate e request"
  by (simp add: authenticate_def Let_def cong: option.case_cong if_cong)

lemma maybeSingle_owner_rows:
  "maybeSingle (st\<lparr>receipts := filter (\<lambda>r. user_id r = u) (receipts st)\<rparr>) rid u
     = maybeSingle st rid u"
proof -
  have "filter (\<lambda>r. receipt_id (columns r) = JStr rid \<and> user_id r = u)
          (filter (\<lambda>r. user_id r = u) (receipts st))
        = filter (\<lambda>r. receipt_id (columns r) = JStr rid \<and> user_id r = u) (receipts st)"
    by (induction "receipts st") (auto simp: filter_empty_conv intro: filter_cong)
  then show ?thesis by (simp add: maybeSingle_def)
qed

lemma maybeSingle_none:
  assumes "\<not> failing st"
    and "\<forall>r\<in>set (receipts st). receipt_id (columns r) = JStr rid \<longrightarrow> user_id r \<noteq> u"
  shows "maybeSingle st rid u = QueryData None"
proof -
  have "filter (\<lambda>r. receipt_id (columns r) = JStr rid \<and> user_id r = u) (receipts st) = []"
    using assms(2) by (auto simp: filter_empty_conv)
  with assms(1) show ?thesis by (simp add: maybeSingle_def)
qed

lemma example_authenticate: "authenticate example_env example_request = Inr ''U1''"
  by (simp add: authenticate_def example_env_def example_request_def example_verify_def
      trim_def is_space_def)

lemma example_valid_id: "valid_receipt_id example_id"
  by (simp add: valid_receipt_id_def example_id_def is_id_char_def)

text \<open>
  C8.  The store is not accessed before both gates pass.  A request whose Authorization
  header is absent or does not begin with \<^verbatim>\<open>Bearer \<close> is answered 401 and no query is
  made; an authenticated request whose path id is shorter than 32 or longer than 36
  characters, or has a character that is neither a hexadecimal digit nor a hyphen, is
  answered 400 and no query is made; and whenever a query is made, it is the only one, the
  request is authenticated and its id has the required shape.
\<close>

theorem export_gates:
  "(no_bearer request \<longrightarrow>
      export_csv e request = (send_error 401 ''Missing Authorization Bearer token'', []))
   \<and> (authenticate e request = Inr u \<and> params_id request = Some rid
        \<and> (length rid < 32 \<or> 36 < length rid \<or> \<not> set rid \<subseteq> set ''0123456789abcdefABCDEF-'')
      \<longrightarrow> export_csv e request = (send_error 400 ''Invalid receipt id format'', []))
   \<and> (snd (export_csv e request) \<noteq> [] \<longrightarrow>
        (\<exists>u' rid'. authenticate e request = Inr u' \<and> params_id request = Some rid'
           \<and> 32 \<le> length rid' \<and> length rid' \<le> 36
           \<and> set rid' \<subseteq> set ''0123456789abcdefABCDEF-''
           \<and> snd (export_csv e request) = [StoreQuery rid' u']))"
proof (intro conjI impI)
  assume "no_bearer request"
  then show "export_csv e request = (send_error 401 ''Missing Authorization Bearer token'', [])"
    by (simp add: export_csv_def authenticate_no_bearer)
next
  assume a: "authenticate e request = Inr u \<and> params_id request = Some rid
        \<and> (length rid < 32 \<or> 36 < length rid \<or> \<not> set rid \<subseteq> set ''0123456789abcdefABCDEF-'')"
  then have "\<not> valid_receipt_id rid"
    unfolding valid_receipt_id_iff by auto
  with a show "export_csv e request = (send_error 400 ''Invalid receipt id format'', [])"
    by (simp add: export_csv_def)
next
  assume "snd (export_csv e request) \<noteq> []"
  from export_csv_events [OF this] show "\<exists>u' rid'. authenticate e request = Inr u' \<and> params_id request = Some rid'
           \<and> 32 \<le> length rid' \<and> length rid' \<le> 36
           \<and> set rid' \<subseteq> set ''0123456789abcdefABCDEF-''
           \<and> snd (export_csv e request) = [StoreQuery rid' u']"
    unfolding valid_receipt_id_iff by blast
qed

theorem export_gates_witness:
  "export_csv example_env (example_request\<lparr>headers := Map.empty\<rparr>)
     = (send_error 401 ''Missing Authorization Bearer token'', [])
   \<and> export_csv example_env (example_request\<lparr>params_id := Some ''xyz''\<rparr>)
     = (send_error 400 ''Invalid receipt id format'', [])
   \<and> snd (export_csv example_env example_request) = [StoreQuery example_id ''U1'']"
proof -
  have 1: "no_bearer (example_request\<lparr>headers := Map.empty\<rparr>)"
    by (simp add: no_bearer_def)
  have 2: "authenticate example_env (example_request\<lparr>params_id := Some ''xyz''\<rparr>) = Inr ''U1''
      \<and> params_id (example_request\<lparr>params_id := Some ''xyz''\<rparr>) = Some ''xyz''
      \<and> (length ''xyz'' < 32 \<or> 36 < length ''xyz''
          \<or> \<not> set ''xyz'' \<subseteq> set ''0123456789abcdefABCDEF-'')"
    by (simp add: authenticate_def example_env_def example_request_def example_verify_def
      trim_def is_space_def)
  have q: "maybeSingle example_store example_id ''U1'' = QueryData None"
    by (simp add: maybeSingle_def example_store_def example_receipt_def)
  have n: "example_id \<noteq> []"
    by (simp add: example_id_def)
  have 3: "snd (export_csv example_env example_request) \<noteq> []"
    by (simp add: export_csv_def example_authenticate)
       (simp add: example_env_def example_request_def example_valid_id q n)
  from 1 export_gates [of "example_request\<lparr>headers := Map.empty\<rparr>" example_env]
  have a: "export_csv example_env (example_request\<lparr>headers := Map.empty\<rparr>)
     = (send_error 401 ''Missing Authorization Bearer token'', [])" by blast
  from 2 export_gates [of "example_request\<lparr>params_id := Some ''xyz''\<rparr>" example_env "''U1''" "''xyz''"]
  have b: "export_csv example_env (example_request\<lparr>params_id := Some ''xyz''\<rparr>)
     = (send_error 400 ''Invalid receipt id format'', [])" by blast
  from 3 export_gates [of example_request example_env]
  obtain u' rid' where c: "authenticate example_env example_request = Inr u'"
    "params_id example_request = Some rid'"
    "snd (export_csv example_env example_request) = [StoreQuery rid' u']" by blast
  from c have "snd (export_csv example_env example_request) = [StoreQuery example_id ''U1'']"
    by (simp add: example_authenticate) (simp add: example_request_def)
  with a b show ?thesis by blast
qed

text \<open>
  C10.  The credential-presence check comes before the check of the secret.  A request
  whose Authorization header is absent or lacks the prefix \<^verbatim>\<open>Bearer \<close> is answered 401
  (missing credential) whatever the environment, in particular when the verification secret
  is not configured; and a reply with status 500, among them the reply for the missing
  secret, is only given to a request that has a header with the prefix.
\<close>

theorem credential_check_first:
  "(no_bearer request \<longrightarrow>
      authenticate (e\<lparr>SUPABASE_JWT_SECRET := None\<rparr>) request
        = Inl (send_error 401 ''Missing Authorization Bearer token'')
      \<and> fst (export_csv (e\<lparr>SUPABASE_JWT_SECRET := None\<rparr>) request)
        = send_error 401 ''Missing Authorization Bearer token''
      \<and> authenticate e request = Inl (send_error 401 ''Missing Authorization Bearer token''))
   \<and> (status (fst (export_csv e request)) = 500 \<longrightarrow> \<not> no_bearer request)
   \<and> (authenticate e request
         = Inl (send_error 500 ''Server missing SUPABASE_JWT_SECRET env variable'')
       \<longrightarrow> \<not> no_bearer request)"
proof (intro conjI impI)
  assume n: "no_bearer request"
  show "authenticate (e\<lparr>SUPABASE_JWT_SECRET := None\<rparr>) request
        = Inl (send_error 401 ''Missing Authorization Bearer token'')"
    using n by (rule authenticate_no_bearer)
  show "fst (export_csv (e\<lparr>SUPABASE_JWT_SECRET := None\<rparr>) request)
        = send_error 401 ''Missing Authorization Bearer token''"
    using n by (simp add: export_csv_def authenticate_no_bearer)
  show "authenticate e request = Inl (send_error 401 ''Missing Authorization Bearer token'')"
    using n by (rule authenticate_no_bearer)
next
  assume s: "status (fst (export_csv e request)) = 500"
  show "\<not> no_bearer request"
  proof
    assume "no_bearer request"
    then have "export_csv e request = (send_error 401 ''Missing Authorization Bearer token'', [])"
      by (simp add: export_csv_def authenticate_no_bearer)
    with s show False by (simp add: send_error_def)
  qed
next
  assume s: "authenticate e request
         = Inl (send_error 500 ''Server missing SUPABASE_JWT_SECRET env variable'')"
  show "\<not> no_bearer request"
  proof
    assume "no_bearer request"
    from authenticate_no_bearer [OF this, of e] s show False by (simp add: send_error_def)
  qed
qed

theorem credential_check_first_witness:
  "authenticate (example_env\<lparr>SUPABASE_JWT_SECRET := None\<rparr>)
       (example_request\<lparr>headers := [''authorization'' \<mapsto> ''Basic dXNlcg=='']\<rparr>)
     = Inl (send_error 401 ''Missing Authorization Bearer token'')
   \<and> status (fst (export_csv (example_env\<lparr>SUPABASE_JWT_SECRET := None\<rparr>) example_request)) = 500
   \<and> \<not> no_bearer example_request
   \<and> authenticate (example_env\<lparr>SUPABASE_JWT_SECRET := None\<rparr>) example_request
       = Inl (send_error 500 ''Server missing SUPABASE_JWT_SECRET env variable'')"
proof -
  let ?e = "example_env\<lparr>SUPABASE_JWT_SECRET := None\<rparr>"
  let ?r = "example_request\<lparr>headers := [''authorization'' \<mapsto> ''Basic dXNlcg=='']\<rparr>"
  have 1: "no_bearer ?r"
    by (simp add: no_bearer_def)
  have 2: "authenticate ?e example_request
       = Inl (send_error 500 ''Server missing SUPABASE_JWT_SECRET env variable'')"
    by (simp add: authenticate_def example_env_def example_request_def)
  then have 3: "status (fst (export_csv ?e example_request)) = 500"
    by (simp add: export_csv_def send_error_def)
  from 1 2 3 credential_check_first [of ?r example_env]
    credential_check_first [of example_request ?e]
  show ?thesis by simp
qed

text \<open>
  C1.  Let the credential of an export request verify to the subject \<open>u\<close>, let its id have
  the valid shape, and let every stored row with that id have an owner other than \<open>u\<close>;
  let the store client exist and answer.  Then the reply is 404, after exactly one query,
  which carries the id and the owner together, and it is the reply that the same request
  gets when the store holds no row with that id at all.  Moreover the reply to an
  authenticated request never depends on the rows of other owners: it is unchanged when
  the store is cut down to the rows of \<open>u\<close>.
\<close>

theorem other_owner_not_found:
  "(authenticate e request = Inr u \<and> params_id request = Some rid \<and> valid_receipt_id rid
      \<and> supabase e = Some st \<and> \<not> failing st
      \<and> (\<forall>r\<in>set (receipts st). receipt_id (columns r) = JStr rid \<longrightarrow> user_id r \<noteq> u)
    \<longrightarrow> export_csv e request = (send_error 404 ''Receipt not found'', [StoreQuery rid u])
        \<and> export_csv
            (e\<lparr>supabase :=
                 Some (st\<lparr>receipts :=
                             filter (\<lambda>r. receipt_id (columns r) \<noteq> JStr rid) (receipts st)\<rparr>)\<rparr>)
            request
          = export_csv e request)
   \<and> (authenticate e request = Inr u \<and> supabase e = Some st
      \<longrightarrow> export_csv
            (e\<lparr>supabase := Some (st\<lparr>receipts := filter (\<lambda>r. user_id r = u) (receipts st)\<rparr>)\<rparr>)
            request
          = export_csv e request)"
proof (intro conjI impI)
  assume a: "authenticate e request = Inr u \<and> params_id request = Some rid
      \<and> valid_receipt_id rid \<and> supabase e = Some st \<and> \<not> failing st
      \<and> (\<forall>r\<in>set (receipts st). receipt_id (columns r) = JStr rid \<longrightarrow> user_id r \<noteq> u)"
  then have v: "rid \<noteq> []" by (auto simp: valid_receipt_id_def)
  from a have q: "maybeSingle st rid u = QueryData None"
    by (simp add: maybeSingle_none)
  from a v q show r: "export_csv e request = (send_error 404 ''Receipt not found'', [StoreQuery rid u])"
    by (simp add: export_csv_def)
  let ?st = "st\<lparr>receipts := filter (\<lambda>r. receipt_id (columns r) \<noteq> JStr rid) (receipts st)\<rparr>"
  from a have "maybeSingle ?st rid u = QueryData None"
    by (intro maybeSingle_none) auto
  with a v have "export_csv (e\<lparr>supabase := Some ?st\<rparr>) request
      = (send_error 404 ''Receipt not found'', [StoreQuery rid u])"
    by (simp add: export_csv_def)
  with r show "export_csv (e\<lparr>supabase := Some ?st\<rparr>) request = export_csv e request"
    by simp
next
  assume a: "authenticate e request = Inr u \<and> supabase e = Some st"
  then show "export_csv
            (e\<lparr>supabase := Some (st\<lparr>receipts := filter (\<lambda>r. user_id r = u) (receipts st)\<rparr>)\<rparr>)
            request
          = export_csv e request"
    by (simp add: export_csv_def maybeSingle_owner_rows
          cong: option.case_cong if_cong query_result.case_cong)
qed

theorem other_owner_not_found_witness:
  "export_csv example_env example_request
     = (send_error 404 ''Receipt not found'', [StoreQuery example_id ''U1''])
   \<and> export_csv (example_env\<lparr>supabase := Some (example_store\<lparr>receipts := []\<rparr>)\<rparr>) example_request
     = export_csv example_env example_request"
proof -
  have h: "authenticate example_env example_request = Inr ''U1''
      \<and> params_id example_request = Some example_id \<and> valid_receipt_id example_id
      \<and> supabase example_env = Some example_store \<and> \<not> failing example_store
      \<and> (\<forall>r\<in>set (receipts example_store).
            receipt_id (columns r) = JStr example_id \<longrightarrow> user_id r \<noteq> ''U1'')"
    by (simp add: example_authenticate example_valid_id)
       (simp add: example_env_def example_request_def example_store_def)
  have f: "filter (\<lambda>r. receipt_id (columns r) \<noteq> JStr example_id) (receipts example_store) = []"
    by (simp add: example_store_def example_receipt_def)
  from h f other_owner_not_found [of example_env example_request "''U1''" example_id example_store]
  show ?thesis by simp
qed

lemma join_Cons: "join sep (l # ls) = l @ concat (map (\<lambda>m. sep @ m) ls)"
  by (induction ls arbitrary: l) simp_all

text \<open>
  C9.  The document is the lines joined by single newlines: the six metadata lines
  Merchant, Purchase Date, Total, Currency, Category and Receipt ID, an empty line, the
  line \<^verbatim>\<open>Items\<close>, the line \<^verbatim>\<open>Name,Quantity,Price\<close>, then one row per line item in the order
  of the store.  Without line items the document ends with the two header lines.  Every
  cell is the value of a total function, so the document is built whatever the fields hold.
\<close>

theorem buildReceiptCsv_layout:
  "buildReceiptCsv parse data =
     ''Merchant,'' @ csvEscape (merchant data) @ [LF]
     @ ''Purchase Date,'' @ csvEscape (JStr (formatDate parse (purchase_at data))) @ [LF]
     @ ''Total,'' @ csvEscape (JStr (formatNumber (total_amount data))) @ [LF]
     @ ''Currency,'' @ csvEscape (currency data) @ [LF]
     @ ''Category,'' @ csvEscape (category data) @ [LF]
     @ ''Receipt ID,'' @ csvEscape (receipt_id data) @ [LF]
     @ [LF]
     @ ''Items'' @ [LF]
     @ ''Name,Quantity,Price''
     @ concat (map (\<lambda>item. [LF] @ csvEscape (name item) @ '','' @ csvEscape (or_empty (quantity item))
                      @ '','' @ csvEscape (JStr (formatNumber (price item))))
          (case receipt_items data of Some items \<Rightarrow> items | None \<Rightarrow> []))
   \<and> buildReceiptCsv parse (data\<lparr>receipt_items := Some []\<rparr>) =
     ''Merchant,'' @ csvEscape (merchant data) @ [LF]
     @ ''Purchase Date,'' @ csvEscape (JStr (formatDate parse (purchase_at data))) @ [LF]
     @ ''Total,'' @ csvEscape (JStr (formatNumber (total_amount data))) @ [LF]
     @ ''Currency,'' @ csvEscape (currency data) @ [LF]
     @ ''Category,'' @ csvEscape (category data) @ [LF]
     @ ''Receipt ID,'' @ csvEscape (receipt_id data) @ [LF]
     @ [LF]
     @ ''Items'' @ [LF]
     @ ''Name,Quantity,Price''
   \<and> length (csv_lines parse data)
       = 9 + length (case receipt_items data of Some items \<Rightarrow> items | None \<Rightarrow> [])"
  by (simp add: buildReceiptCsv_def csv_lines_def join_Cons item_line_def comp_def)

section \<open>Properties of the digit strings\<close>

lemma div_bounds:
  fixes x k :: int
  assumes "0 < k"
  shows "k * (x div k) \<le> x \<and> x < k * (x div k) + k"
proof -
  have e: "x = k * (x div k) + x mod k" by simp
  have "0 \<le> x mod k" "x mod k < k" using assms by simp_all
  with e show ?thesis by (intro conjI) linarith+
qed

lemma nth_digit_char: "i < 10 \<Longrightarrow> is_digit (''0123456789'' ! i)"
  unfolding is_digit_def by (rule nth_mem) simp

lemma digits_is_digit: "list_all is_digit (digits n)"
proof (induction n rule: digits.induct)
  case (1 n)
  show ?case
  proof (cases "n < 10")
    case True
    then have "nat n < 10" by simp
    then show ?thesis using True by (subst digits.simps) (simp add: nth_digit_char)
  next
    case False
    have "nat (n mod 10) < 10" by simp
    with False 1 show ?thesis by (subst digits.simps) (simp add: nth_digit_char)
  qed
qed

lemma digits_nonempty: "digits n \<noteq> []"
  by (subst digits.simps) simp

lemma digits_length: "0 < k \<Longrightarrow> n < 10 ^ k \<Longrightarrow> length (digits n) \<le> k"
proof (induction n arbitrary: k rule: digits.induct)
  case (1 n)
  show ?case
  proof (cases "n < 10")
    case True
    then show ?thesis using "1.prems" by (subst digits.simps) simp
  next
    case False
    from "1.prems" obtain j where k: "k = Suc j" by (cases k) auto
    have "j \<noteq> 0"
    proof
      assume "j = 0"
      with k "1.prems" False show False by simp
    qed
    then have j: "0 < j" by simp
    have "10 * (n div 10) \<le> n"
      using div_bounds [of 10 n] by simp
    moreover have "n < 10 * 10 ^ j"
      using "1.prems"(2) k by simp
    ultimately have "n div 10 < 10 ^ j"
      by linarith
    from "1.IH" [OF False j this] k False show ?thesis
      by (subst digits.simps) simp
  qed
qed

lemma pad_props:
  assumes "0 < w" "n < 10 ^ w"
  shows "length (pad w n) = w" and "list_all is_digit (pad w n)"
proof -
  have "length (digits n) \<le> w" using assms by (rule digits_length)
  then show "length (pad w n) = w" by (simp add: pad_def Let_def)
  have "is_digit (CHR ''0'')" by (simp add: is_digit_def)
  then show "list_all is_digit (pad w n)"
    using digits_is_digit [of n] by (auto simp: pad_def Let_def list_all_iff)
qed

lemma pad_is_digit: "list_all is_digit (pad w n)"
proof -
  have "is_digit (CHR ''0'')" by (simp add: is_digit_def)
  then show ?thesis
    using digits_is_digit [of n] by (auto simp: pad_def Let_def list_all_iff)
qed

section \<open>Properties of the amount formatter\<close>

text \<open>
  A finite value of magnitude below \<open>10 ^ 21\<close> is rendered with two digits after the point,
  so the only other outputs of \<open>formatNumber\<close> are those of the infinite values and of the
  values from \<open>10 ^ 21\<close> on.
\<close>

lemma two_decimals_parts:
  assumes "a \<noteq> []" "list_all is_digit a" "length b = 2" "list_all is_digit b"
  shows "two_decimals (a @ ''.'' @ b)" and "two_decimals (''-'' @ a @ ''.'' @ b)"
proof -
  have d: "\<not> is_digit (CHR ''-'')" by (simp add: is_digit_def)
  from assms(1) obtain c r where a: "a = c # r" by (cases a) auto
  with assms(2) d have c: "c \<noteq> CHR ''-''" by auto
  have l: "length (a @ ''.'' @ b) - 3 = length a" "length (a @ ''.'' @ b) - 2 = Suc (length a)"
    using assms(3) by simp_all
  have u: "4 \<le> length (a @ ''.'' @ b) \<and> list_all is_digit (take (length (a @ ''.'' @ b) - 3) (a @ ''.'' @ b))
      \<and> (a @ ''.'' @ b) ! (length (a @ ''.'' @ b) - 3) = CHR ''.''
      \<and> list_all is_digit (drop (length (a @ ''.'' @ b) - 2) (a @ ''.'' @ b))"
    unfolding l using assms a by (simp add: nth_append)
  show "two_decimals (a @ ''.'' @ b)"
    using u c unfolding two_decimals_def Let_def a by simp
  show "two_decimals (''-'' @ a @ ''.'' @ b)"
    using u unfolding two_decimals_def Let_def by simp
qed

lemma toFixed2_two_decimals:
  assumes "\<bar>x\<bar> < 10 ^ 21"
  shows "two_decimals (toFixed2 (Fin x))"
proof -
  define n where "n = \<lfloor>\<bar>x\<bar> * 100 + 1 / 2\<rfloor>"
  define m where "m = digits n"
  define m' where "m' = (if length m \<le> 2 then replicate (3 - length m) (CHR ''0'') @ m else m)"
  have z: "is_digit (CHR ''0'')" by (simp add: is_digit_def)
  have md: "list_all is_digit m" unfolding m_def by (rule digits_is_digit)
  have l: "3 \<le> length m'" unfolding m'_def by simp
  have d: "list_all is_digit m'" using md z by (auto simp: m'_def list_all_iff)
  have a: "take (length m' - 2) m' \<noteq> []" using l by auto
  have da: "list_all is_digit (take (length m' - 2) m')"
    using d by (auto simp: list_all_iff dest: in_set_takeD)
  have b: "length (drop (length m' - 2) m') = 2" using l by simp
  have db: "list_all is_digit (drop (length m' - 2) m')"
    using d by (auto simp: list_all_iff dest: in_set_dropD)
  have "toFixed2 (Fin x) = (if x < 0 then ''-'' else '''')
      @ take (length m' - 2) m' @ ''.'' @ drop (length m' - 2) m'"
    using assms by (simp add: toFixed2_def Let_def n_def m_def m'_def)
  then show ?thesis
    using two_decimals_parts [OF a da b db] by (cases "x < 0") simp_all
qed

lemma formatNumber_outputs:
  "formatNumber n = [] \<or> two_decimals (formatNumber n)
   \<or> Number_of n = PosInf \<or> Number_of n = NegInf
   \<or> (\<exists>x. Number_of n = Fin x \<and> 10 ^ 21 \<le> \<bar>x\<bar>)"
proof (cases "Number_of n")
  case (Fin x)
  show ?thesis
  proof (cases "\<bar>x\<bar> < 10 ^ 21")
    case True
    from toFixed2_two_decimals [OF this] Fin show ?thesis
      by (simp add: formatNumber_def Let_def)
  next
    case False
    with Fin show ?thesis by simp
  qed
qed (simp_all add: formatNumber_def Let_def)

text \<open>
  C4.  \<open>formatNumber\<close> maps \<^verbatim>\<open>null\<close> to the empty string, the string \<^verbatim>\<open>12\<close> to \<^verbatim>\<open>12.00\<close>, the
  string \<^verbatim>\<open>abc\<close> to the empty string, and the number 12.345 (the binary64 value nearest to
  it) to \<^verbatim>\<open>12.35\<close>.
\<close>

theorem formatNumber_examples:
  "formatNumber JNull = []
   \<and> formatNumber (JStr ''12'') = ''12.00''
   \<and> formatNumber (JStr ''abc'') = []
   \<and> formatNumber (JNum (to_double (12345 / 1000))) = ''12.35''"
  by code_simp

text \<open>
  C5.  Outputs of \<open>formatNumber\<close> that are neither empty nor a number with two digits after
  the point: the number \<open>10 ^ 21\<close> is rendered \<^verbatim>\<open>1e+21\<close>, and the infinite values, as numbers
  or as the strings \<^verbatim>\<open>Infinity\<close> and \<^verbatim>\<open>-Infinity\<close>, are rendered by their names.
\<close>

theorem formatNumber_other_outputs:
  "formatNumber (JNum (to_double (10 ^ 21))) = ''1e+21''
   \<and> \<not> two_decimals (formatNumber (JNum (to_double (10 ^ 21))))
   \<and> formatNumber (JStr ''Infinity'') = ''Infinity''
   \<and> \<not> two_decimals (formatNumber (JStr ''Infinity''))
   \<and> formatNumber (JNum NegInf) = ''-Infinity''
   \<and> two_decimals (formatNumber (JStr ''12''))"
  by code_simp

section \<open>Properties of the date formatter\<close>

lemma DayFromYear_bounds:
  "400 * DayFromYear y \<le> 146097 * (y - 1970) + 589
   \<and> 146097 * (y - 1970) - 506 \<le> 400 * DayFromYear y"
proof -
  define a where "a = (y - 1969) div 4"
  define b where "b = (y - 1901) div 100"
  define c where "c = (y - 1601) div 400"
  have a: "4 * a \<le> y - 1969 \<and> y - 1969 < 4 * a + 4"
    unfolding a_def by (rule div_bounds) simp
  have b: "100 * b \<le> y - 1901 \<and> y - 1901 < 100 * b + 100"
    unfolding b_def by (rule div_bounds) simp
  have c: "400 * c \<le> y - 1601 \<and> y - 1601 < 400 * c + 400"
    unfolding c_def by (rule div_bounds) simp
  have d: "400 * DayFromYear y = 146000 * (y - 1970) + 400 * a - 400 * b + 400 * c"
    by (simp add: DayFromYear_def a_def b_def c_def)
  have a1: "400 * a \<le> 100 * y - 196900" and a2: "100 * y - 197200 \<le> 400 * a"
    using a by simp_all
  have b1: "4 * y - 8000 \<le> 400 * b" and b2: "400 * b \<le> 4 * y - 7604"
    using b by simp_all
  have c1: "400 * c \<le> y - 1601" and c2: "y - 2000 \<le> 400 * c"
    using c by simp_all
  have "400 * DayFromYear y \<le> 146097 * (y - 1970) + 589"
    using d a1 b1 c1 by simp
  moreover have "146097 * (y - 1970) - 506 \<le> 400 * DayFromYear y"
    using d a2 b2 c2 by simp
  ultimately show ?thesis by simp
qed

lemma div_succ:
  fixes z c :: int
  assumes "0 < c"
  shows "(z + 1) div c = z div c + (if (z + 1) mod c = 0 then 1 else 0)"
proof (cases "(z + 1) mod c = 0")
  case True
  then obtain k where k: "z + 1 = c * k" by (auto simp: mod_eq_0_iff_dvd)
  then have z: "z = c * (k - 1) + (c - 1)" by (simp add: algebra_simps)
  have "(c * (k - 1) + (c - 1)) div c = (k - 1) + (c - 1) div c"
    by (rule div_mult_self4) (use assms in simp)
  also have "(c - 1) div c = 0" using assms by (simp add: div_pos_pos_trivial)
  finally have "z div c = k - 1" using z by simp
  moreover have "(z + 1) div c = k" using k assms by simp
  ultimately show ?thesis using True by simp
next
  case False
  have e: "z = c * (z div c) + z mod c" by simp
  have b: "0 \<le> z mod c" "z mod c < c" using assms by simp_all
  have "z mod c \<noteq> c - 1"
  proof
    assume "z mod c = c - 1"
    with e have "z = c * (z div c) + (c - 1)" by simp
    then have "z + 1 = c * (z div c + 1)" by (simp add: algebra_simps)
    then have "(z + 1) mod c = 0" by (metis mod_mult_self1_is_0)
    with False show False by simp
  qed
  with b have b2: "z mod c + 1 < c" by simp
  have "z + 1 = c * (z div c) + (z mod c + 1)" using e by simp
  then have "(z + 1) div c = (c * (z div c) + (z mod c + 1)) div c" by simp
  also have "\<dots> = z div c + (z mod c + 1) div c"
    by (rule div_mult_self4) (use assms in simp)
  also have "(z mod c + 1) div c = 0" using b b2 by (simp add: div_pos_pos_trivial)
  finally show ?thesis using False by simp
qed

lemma mod_shift:
  fixes y c k :: int
  shows "(y - c * k) mod c = y mod c"
proof -
  have "y - c * k = y + c * (- k)" by simp
  then show ?thesis by (simp only: mod_mult_self2)
qed

lemma leap_mods:
  fixes y :: int
  shows "(y - 1968) mod 4 = y mod 4" "(y - 1900) mod 100 = y mod 100"
    "(y - 1600) mod 400 = y mod 400"
  using mod_shift [of y 4 492] mod_shift [of y 100 19] mod_shift [of y 400 4] by simp_all

lemma mod_chain:
  fixes y :: int
  shows "y mod 400 = 0 \<Longrightarrow> y mod 100 = 0" "y mod 100 = 0 \<Longrightarrow> y mod 4 = 0"
proof -
  have "(100::int) dvd 400" "(4::int) dvd 100" by simp_all
  then show "y mod 400 = 0 \<Longrightarrow> y mod 100 = 0" "y mod 100 = 0 \<Longrightarrow> y mod 4 = 0"
    by (auto simp: mod_eq_0_iff_dvd intro: dvd_trans)
qed

lemma DayFromYear_step: "DayFromYear (y + 1) = DayFromYear y + DaysInYear y"
proof -
  have a: "(y + 1 - 1969) div 4 = (y - 1969) div 4 + (if y mod 4 = 0 then 1 else 0)"
  proof -
    have "(y - 1969 + 1) div 4 = (y - 1969) div 4 + (if (y - 1969 + 1) mod 4 = 0 then 1 else 0)"
      by (rule div_succ) simp
    moreover have "y - 1969 + 1 = y - 1968" "y + 1 - 1969 = y - 1968" by simp_all
    ultimately show ?thesis by (simp only: leap_mods)
  qed
  have b: "(y + 1 - 1901) div 100 = (y - 1901) div 100 + (if y mod 100 = 0 then 1 else 0)"
  proof -
    have "(y - 1901 + 1) div 100
        = (y - 1901) div 100 + (if (y - 1901 + 1) mod 100 = 0 then 1 else 0)"
      by (rule div_succ) simp
    moreover have "y - 1901 + 1 = y - 1900" "y + 1 - 1901 = y - 1900" by simp_all
    ultimately show ?thesis by (simp only: leap_mods)
  qed
  have c: "(y + 1 - 1601) div 400 = (y - 1601) div 400 + (if y mod 400 = 0 then 1 else 0)"
  proof -
    have "(y - 1601 + 1) div 400
        = (y - 1601) div 400 + (if (y - 1601 + 1) mod 400 = 0 then 1 else 0)"
      by (rule div_succ) simp
    moreover have "y - 1601 + 1 = y - 1600" "y + 1 - 1601 = y - 1600" by simp_all
    ultimately show ?thesis by (simp only: leap_mods)
  qed
  show ?thesis
    unfolding DayFromYear_def DaysInYear_def a b c
    using mod_chain [of y] by (simp split: if_splits)
qed

lemma YearFromDay_bounds:
  "DayFromYear (YearFromDay d) \<le> d \<and> d < DayFromYear (YearFromDay d + 1)"
proof -
  define q where "q = (d * 400) div 146097"
  have q: "146097 * q \<le> d * 400 \<and> d * 400 < 146097 * q + 146097"
    unfolding q_def by (rule div_bounds) simp
  have lo: "DayFromYear (1970 + q - 1) \<le> d"
    using DayFromYear_bounds [of "1970 + q - 1"] q by simp
  have hi: "d < DayFromYear (1970 + q + 1 + 1)"
    using DayFromYear_bounds [of "1970 + q + 1 + 1"] q by simp
  show ?thesis
    unfolding YearFromDay_def Let_def q_def [symmetric]
    using lo hi by auto
qed

lemma DaysInYear_cases: "DaysInYear y = 365 \<or> DaysInYear y = 366"
  by (simp add: DaysInYear_def)

lemma month_date_of_day:
  fixes w l :: int
  assumes "0 \<le> w" "w < 365 + l" "l = 0 \<or> l = 1"
  defines "m \<equiv> (if w < 31 then 0
         else if w < 59 + l then 1
         else if w < 90 + l then 2
         else if w < 120 + l then 3
         else if w < 151 + l then 4
         else if w < 181 + l then 5
         else if w < 212 + l then 6
         else if w < 243 + l then 7
         else if w < 273 + l then 8
         else if w < 304 + l then 9
         else if w < 334 + l then 10
         else (11::int))"
  defines "dt \<equiv> (if m = 0 then w + 1
         else if m = 1 then w - 30
         else if m = 2 then w - 58 - l
         else if m = 3 then w - 89 - l
         else if m = 4 then w - 119 - l
         else if m = 5 then w - 150 - l
         else if m = 6 then w - 180 - l
         else if m = 7 then w - 211 - l
         else if m = 8 then w - 242 - l
         else if m = 9 then w - 272 - l
         else if m = 10 then w - 303 - l
         else w - 333 - l)"
  shows "0 \<le> m \<and> m \<le> 11 \<and> 1 \<le> dt
     \<and> dt \<le> (if m + 1 = 2 then (if l = 1 then 29 else 28)
              else if m + 1 = 4 \<or> m + 1 = 6 \<or> m + 1 = 9 \<or> m + 1 = 11 then 30 else 31)
     \<and> month_start l m + dt - 1 = w"
  using assms(1-3) unfolding m_def dt_def month_start_def
  by (auto split: if_splits)

lemma date_of_time:
  "0 \<le> MonthFromTime t \<and> MonthFromTime t \<le> 11
   \<and> valid_date (YearFromTime t) (MonthFromTime t + 1) (DateFromTime t)
   \<and> MakeDay (YearFromTime t) (MonthFromTime t) (DateFromTime t) = Day t"
proof -
  define y where "y = YearFromTime t"
  define w where "w = DayWithinYear t"
  define l where "l = InLeapYear t"
  have b: "DayFromYear y \<le> Day t \<and> Day t < DayFromYear (y + 1)"
    unfolding y_def YearFromTime_def by (rule YearFromDay_bounds)
  have l: "l = 0 \<or> l = 1" and ll: "l = leap y" and d: "DaysInYear y = 365 + l"
    using DaysInYear_cases [of y] by (auto simp: l_def InLeapYear_def leap_def y_def)
  have w: "0 \<le> w" "w < 365 + l" and dw: "Day t = DayFromYear y + w"
    using b d by (simp_all add: w_def DayWithinYear_def y_def [symmetric] DayFromYear_step)
  note m = month_date_of_day [OF w l]
  have mm: "MonthFromTime t = (if w < 31 then 0
         else if w < 59 + l then 1
         else if w < 90 + l then 2
         else if w < 120 + l then 3
         else if w < 151 + l then 4
         else if w < 181 + l then 5
         else if w < 212 + l then 6
         else if w < 243 + l then 7
         else if w < 273 + l then 8
         else if w < 304 + l then 9
         else if w < 334 + l then 10
         else (11::int))"
    by (simp only: MonthFromTime_def Let_def w_def l_def)
  have dd: "DateFromTime t = (if MonthFromTime t = 0 then w + 1
         else if MonthFromTime t = 1 then w - 30
         else if MonthFromTime t = 2 then w - 58 - l
         else if MonthFromTime t = 3 then w - 89 - l
         else if MonthFromTime t = 4 then w - 119 - l
         else if MonthFromTime t = 5 then w - 150 - l
         else if MonthFromTime t = 6 then w - 180 - l
         else if MonthFromTime t = 7 then w - 211 - l
         else if MonthFromTime t = 8 then w - 242 - l
         else if MonthFromTime t = 9 then w - 272 - l
         else if MonthFromTime t = 10 then w - 303 - l
         else w - 333 - l)"
    by (simp only: DateFromTime_def Let_def w_def l_def)
  from m have m': "0 \<le> MonthFromTime t \<and> MonthFromTime t \<le> 11 \<and> 1 \<le> DateFromTime t
     \<and> DateFromTime t \<le> (if MonthFromTime t + 1 = 2 then (if l = 1 then 29 else 28)
              else if MonthFromTime t + 1 = 4 \<or> MonthFromTime t + 1 = 6
                      \<or> MonthFromTime t + 1 = 9 \<or> MonthFromTime t + 1 = 11 then 30 else 31)
     \<and> month_start l (MonthFromTime t) + DateFromTime t - 1 = w"
    unfolding dd mm [symmetric] by (simp only: mm [symmetric])
  have dim: "days_in_month y (MonthFromTime t + 1)
     = (if MonthFromTime t + 1 = 2 then (if l = 1 then 29 else 28)
              else if MonthFromTime t + 1 = 4 \<or> MonthFromTime t + 1 = 6
                      \<or> MonthFromTime t + 1 = 9 \<or> MonthFromTime t + 1 = 11 then 30 else 31)"
    using d l by (auto simp: days_in_month_def)
  from m' dim dw ll show ?thesis
    unfolding y_def [symmetric] valid_date_def MakeDay_def by (auto simp: )
qed

lemma is_digit_not_T: "is_digit c \<Longrightarrow> c \<noteq> CHR ''T''"
  by (auto simp: is_digit_def)

lemma pad_no_T: "CHR ''T'' \<notin> set (pad w n)"
  using pad_is_digit [of w n] is_digit_not_T by (auto simp: list_all_iff)

lemma iso_year_no_T: "CHR ''T'' \<notin> set (iso_year y)"
  using pad_no_T by (auto simp: iso_year_def)

lemma split_first_date:
  "CHR ''T'' \<notin> set a \<Longrightarrow> split_first (CHR ''T'') (a @ ''T'' @ r) = a"
  by (induction a) (auto simp: split_first_def)

lemma DaysInYear_pos: "0 < DaysInYear y"
  by (simp add: DaysInYear_def)

lemma DayFromYear_mono: "y \<le> z \<Longrightarrow> DayFromYear y \<le> DayFromYear z"
proof (induction z rule: int_ge_induct)
  case base
  show ?case by simp
next
  case (step i)
  then show ?case using DayFromYear_step [of i] DaysInYear_pos [of i] by simp
qed

lemma year_in_range:
  assumes "- 62167219200000 \<le> t" "t < 253402300800000"
  shows "0 \<le> YearFromTime t \<and> YearFromTime t \<le> 9999"
proof -
  define y where "y = YearFromTime t"
  have b: "DayFromYear y \<le> Day t \<and> Day t < DayFromYear (y + 1)"
    unfolding y_def YearFromTime_def by (rule YearFromDay_bounds)
  have d0: "DayFromYear 0 = - 719528" and d1: "DayFromYear 10000 = 2932897"
    by (simp_all add: DayFromYear_def)
  have "- 719528 * 86400000 \<le> t" using assms(1) by simp
  then have lo: "- 719528 \<le> Day t"
    unfolding Day_def msPerDay_def using div_bounds [of 86400000 t] by linarith
  have "t < 2932897 * 86400000" using assms(2) by simp
  then have hi: "Day t < 2932897"
    unfolding Day_def msPerDay_def using div_bounds [of 86400000 t] by linarith
  have "0 \<le> y"
  proof (rule ccontr)
    assume "\<not> 0 \<le> y"
    then have "y + 1 \<le> 0" by simp
    from DayFromYear_mono [OF this] b lo d0 show False by simp
  qed
  moreover have "y \<le> 9999"
  proof (rule ccontr)
    assume "\<not> y \<le> 9999"
    then have "10000 \<le> y" by simp
    from DayFromYear_mono [OF this] b hi d1 show False by simp
  qed
  ultimately show ?thesis by (simp add: y_def)
qed

lemma is_YYYY_MM_DD_parts:
  assumes "length a = 4" "list_all is_digit a" "length b = 2" "list_all is_digit b"
    "length c = 2" "list_all is_digit c"
  shows "is_YYYY_MM_DD (a @ ''-'' @ b @ ''-'' @ c)"
  using assms by (simp add: is_YYYY_MM_DD_def nth_append)

lemma formatDate_valid:
  assumes "s \<noteq> []" "TimeClip (parse s) = Some t"
  shows "formatDate parse (JStr s)
     = iso_year (YearFromTime t) @ ''-'' @ pad 2 (MonthFromTime t + 1) @ ''-''
       @ pad 2 (DateFromTime t)"
proof -
  let ?a = "iso_year (YearFromTime t) @ ''-'' @ pad 2 (MonthFromTime t + 1) @ ''-''
       @ pad 2 (DateFromTime t)"
  have n: "CHR ''T'' \<notin> set ?a"
    using iso_year_no_T pad_no_T by simp
  have "formatDate parse (JStr s) = split_first (CHR ''T'')
     (?a @ ''T'' @ (pad 2 (HourFromTime t) @ '':''
               @ pad 2 (MinFromTime t) @ '':'' @ pad 2 (SecFromTime t) @ ''.''
               @ pad 3 (msFromTime t) @ ''Z''))"
    using assms by (simp add: formatDate_def truthy_def new_Date_def toISOString_def)
  also have "\<dots> = ?a" using n by (rule split_first_date)
  finally show ?thesis .
qed

lemma valid_date_day_of_year:
  fixes l :: int
  assumes "1 \<le> m" "m \<le> 12" "1 \<le> d"
    "d \<le> (if m = 2 then (if l = 1 then 29 else 28)
          else if m = 4 \<or> m = 6 \<or> m = 9 \<or> m = 11 then 30 else 31)"
    "l = 0 \<or> l = 1"
  defines "w \<equiv> month_start l (m - 1) + d - 1"
  shows "0 \<le> w \<and> w < 365 + l
     \<and> (if w < 31 then 0
         else if w < 59 + l then 1
         else if w < 90 + l then 2
         else if w < 120 + l then 3
         else if w < 151 + l then 4
         else if w < 181 + l then 5
         else if w < 212 + l then 6
         else if w < 243 + l then 7
         else if w < 273 + l then 8
         else if w < 304 + l then 9
         else if w < 334 + l then 10
         else (11::int)) = m - 1"
proof -
  have "m = 1 \<or> m = 2 \<or> m = 3 \<or> m = 4 \<or> m = 5 \<or> m = 6 \<or> m = 7 \<or> m = 8 \<or> m = 9
      \<or> m = 10 \<or> m = 11 \<or> m = 12"
    using assms(1,2) by arith
  then show ?thesis
    using assms(3-5) unfolding w_def month_start_def
    by (elim disjE) (auto split: if_splits)
qed

lemma year_unique:
  assumes "DayFromYear y \<le> D" "D < DayFromYear (y + 1)"
    and "DayFromYear z \<le> D" "D < DayFromYear (z + 1)"
  shows "y = z"
proof (rule ccontr)
  assume "y \<noteq> z"
  then consider "y + 1 \<le> z" | "z + 1 \<le> y" by linarith
  then show False
  proof cases
    case 1
    from DayFromYear_mono [OF this] assms show False by simp
  next
    case 2
    from DayFromYear_mono [OF this] assms show False by simp
  qed
qed

lemma calendar_date_unique:
  assumes "valid_date y m d" "MakeDay y (m - 1) d = D"
    and "valid_date y' m' d'" "MakeDay y' (m' - 1) d' = D"
  shows "y' = y \<and> m' = m \<and> d' = d"
proof -
  have off: "\<And>y m d. valid_date y m d \<Longrightarrow>
      0 \<le> month_start (leap y) (m - 1) + d - 1
      \<and> month_start (leap y) (m - 1) + d - 1 < DaysInYear y
      \<and> (let w = month_start (leap y) (m - 1) + d - 1; l = leap y in
          if w < 31 then 0
         else if w < 59 + l then 1
         else if w < 90 + l then 2
         else if w < 120 + l then 3
         else if w < 151 + l then 4
         else if w < 181 + l then 5
         else if w < 212 + l then 6
         else if w < 243 + l then 7
         else if w < 273 + l then 8
         else if w < 304 + l then 9
         else if w < 334 + l then 10
         else (11::int)) = m - 1"
  proof -
    fix y m d
    assume v: "valid_date y m d"
    have l: "leap y = 0 \<or> leap y = 1" and dy: "DaysInYear y = 365 + leap y"
      using DaysInYear_cases [of y] by (auto simp: leap_def)
    have dm: "days_in_month y m = (if m = 2 then (if leap y = 1 then 29 else 28)
          else if m = 4 \<or> m = 6 \<or> m = 9 \<or> m = 11 then 30 else 31)"
      by (simp add: days_in_month_def leap_def)
    from v have "1 \<le> m" "m \<le> 12" "1 \<le> d" "d \<le> days_in_month y m"
      by (simp_all add: valid_date_def)
    from valid_date_day_of_year [OF this(1-3) this(4) [unfolded dm] l] dy
    show "0 \<le> month_start (leap y) (m - 1) + d - 1
      \<and> month_start (leap y) (m - 1) + d - 1 < DaysInYear y
      \<and> (let w = month_start (leap y) (m - 1) + d - 1; l = leap y in
          if w < 31 then 0
         else if w < 59 + l then 1
         else if w < 90 + l then 2
         else if w < 120 + l then 3
         else if w < 151 + l then 4
         else if w < 181 + l then 5
         else if w < 212 + l then 6
         else if w < 243 + l then 7
         else if w < 273 + l then 8
         else if w < 304 + l then 9
         else if w < 334 + l then 10
         else (11::int)) = m - 1"
      by (simp add: Let_def)
  qed
  note a = off [OF assms(1)] and b = off [OF assms(3)]
  have ya: "DayFromYear y \<le> D \<and> D < DayFromYear (y + 1)"
    using a assms(2) by (simp add: MakeDay_def DayFromYear_step)
  have yb: "DayFromYear y' \<le> D \<and> D < DayFromYear (y' + 1)"
    using b assms(4) by (simp add: MakeDay_def DayFromYear_step)
  have y: "y' = y" using ya yb year_unique by blast
  have w: "month_start (leap y) (m' - 1) + d' - 1 = month_start (leap y) (m - 1) + d - 1"
    using assms(2,4) y by (simp add: MakeDay_def)
  have "m' - 1 = m - 1"
    using a b unfolding y w by (simp add: Let_def)
  then have m: "m' = m" by simp
  with w have "d' = d" by simp
  with y m show ?thesis by simp
qed

text \<open>
  What \<open>formatDate\<close> does for every host: \<^verbatim>\<open>null\<close>, \<^verbatim>\<open>undefined\<close>, the empty string and every
  string that the host does not parse give the empty string.  For every string that the host
  parses, to the time value \<open>t\<close>, the result is the calendar date of \<open>t\<close> in UTC, the time of
  day discarded: the year, a hyphen, the two-digit month, a hyphen, the two-digit day, of
  the one valid date whose day number is the day of \<open>t\<close>.  When \<open>t\<close> lies in the years 0 to
  9999 the year has four digits and the result reads \<^verbatim>\<open>YYYY-MM-DD\<close>.  The date of
  \<^verbatim>\<open>2024-03-05T10:00:00Z\<close> is \<^verbatim>\<open>2024-03-05\<close> and the date of \<^verbatim>\<open>not-a-date\<close> is empty.
\<close>

theorem formatDate_calendar_date:
  "formatDate parse JNull = [] \<and> formatDate parse JUndefined = []
   \<and> formatDate parse (JStr []) = []
   \<and> (TimeClip (parse s) = None \<longrightarrow> formatDate parse (JStr s) = [])
   \<and> (s \<noteq> [] \<and> TimeClip (parse s) = Some t \<longrightarrow>
        (\<exists>y m d. valid_date y m d \<and> MakeDay y (m - 1) d = Day t
           \<and> (\<forall>y' m' d'. valid_date y' m' d' \<and> MakeDay y' (m' - 1) d' = Day t
                  \<longrightarrow> y' = y \<and> m' = m \<and> d' = d)
           \<and> formatDate parse (JStr s) = iso_year y @ ''-'' @ pad 2 m @ ''-'' @ pad 2 d
           \<and> (- 62167219200000 \<le> t \<and> t < 253402300800000 \<longrightarrow>
                0 \<le> y \<and> y \<le> 9999 \<and> is_YYYY_MM_DD (formatDate parse (JStr s)))))
   \<and> formatDate Date_parse_utc (JStr ''2024-03-05T10:00:00Z'') = ''2024-03-05''
   \<and> formatDate Date_parse_utc (JStr ''not-a-date'') = []"
proof -
  have 1: "formatDate parse JNull = [] \<and> formatDate parse JUndefined = []
      \<and> formatDate parse (JStr []) = []"
    by (simp add: formatDate_def truthy_def)
  have 2: "TimeClip (parse s) = None \<longrightarrow> formatDate parse (JStr s) = []"
    by (simp add: formatDate_def new_Date_def)
  have 3: "s \<noteq> [] \<and> TimeClip (parse s) = Some t \<longrightarrow>
        (\<exists>y m d. valid_date y m d \<and> MakeDay y (m - 1) d = Day t
           \<and> (\<forall>y' m' d'. valid_date y' m' d' \<and> MakeDay y' (m' - 1) d' = Day t
                  \<longrightarrow> y' = y \<and> m' = m \<and> d' = d)
           \<and> formatDate parse (JStr s) = iso_year y @ ''-'' @ pad 2 m @ ''-'' @ pad 2 d
           \<and> (- 62167219200000 \<le> t \<and> t < 253402300800000 \<longrightarrow>
                0 \<le> y \<and> y \<le> 9999 \<and> is_YYYY_MM_DD (formatDate parse (JStr s))))"
  proof
    assume a: "s \<noteq> [] \<and> TimeClip (parse s) = Some t"
    define y where "y = YearFromTime t"
    define m where "m = MonthFromTime t + 1"
    define d where "d = DateFromTime t"
    have f: "formatDate parse (JStr s) = iso_year y @ ''-'' @ pad 2 m @ ''-'' @ pad 2 d"
      using a by (simp add: formatDate_valid y_def m_def d_def)
    have v: "valid_date y m d" and md: "MakeDay y (m - 1) d = Day t"
      using date_of_time [of t] by (simp_all add: y_def m_def d_def)
    have r: "- 62167219200000 \<le> t \<and> t < 253402300800000 \<longrightarrow>
                0 \<le> y \<and> y \<le> 9999 \<and> is_YYYY_MM_DD (formatDate parse (JStr s))"
    proof
      assume "- 62167219200000 \<le> t \<and> t < 253402300800000"
      then have yr: "0 \<le> y \<and> y \<le> 9999"
        unfolding y_def by (intro year_in_range) simp_all
      then have iy: "iso_year y = pad 4 y" by (simp add: iso_year_def)
      have "m \<le> 12" "d \<le> 31" using v by (auto simp: valid_date_def days_in_month_def split: if_splits)
      then have pm: "length (pad 2 m) = 2" and pd: "length (pad 2 d) = 2"
        by (simp_all add: pad_props)
      have py: "length (pad 4 y) = 4" using yr by (simp add: pad_props)
      have "is_YYYY_MM_DD (pad 4 y @ ''-'' @ pad 2 m @ ''-'' @ pad 2 d)"
        using py pm pd by (intro is_YYYY_MM_DD_parts pad_is_digit)
      with yr f iy show "0 \<le> y \<and> y \<le> 9999 \<and> is_YYYY_MM_DD (formatDate parse (JStr s))"
        by simp
    qed
    have u: "\<forall>y' m' d'. valid_date y' m' d' \<and> MakeDay y' (m' - 1) d' = Day t
                  \<longrightarrow> y' = y \<and> m' = m \<and> d' = d"
      using calendar_date_unique [OF v md] by blast
    from v md u f r show "\<exists>y m d. valid_date y m d \<and> MakeDay y (m - 1) d = Day t
           \<and> (\<forall>y' m' d'. valid_date y' m' d' \<and> MakeDay y' (m' - 1) d' = Day t
                  \<longrightarrow> y' = y \<and> m' = m \<and> d' = d)
           \<and> formatDate parse (JStr s) = iso_year y @ ''-'' @ pad 2 m @ ''-'' @ pad 2 d
           \<and> (- 62167219200000 \<le> t \<and> t < 253402300800000 \<longrightarrow>
                0 \<le> y \<and> y \<le> 9999 \<and> is_YYYY_MM_DD (formatDate parse (JStr s)))"
      by blast
  qed
  have 4: "formatDate Date_parse_utc (JStr ''2024-03-05T10:00:00Z'') = ''2024-03-05''"
    by code_simp
  have 5: "formatDate Date_parse_utc (JStr ''not-a-date'') = []"
    by code_simp
  from 1 2 3 4 5 show ?thesis by blast
qed

theorem formatDate_calendar_date_witness:
  "is_YYYY_MM_DD (formatDate Date_parse_utc (JStr ''1999-12-31T23:59:59Z''))
   \<and> formatDate Date_parse_utc (JStr ''31/12/1999'') = []"
proof -
  have 1: "TimeClip (Date_parse_utc ''31/12/1999'') = None"
    by code_simp
  have 2: "''1999-12-31T23:59:59Z'' \<noteq> []
      \<and> TimeClip (Date_parse_utc ''1999-12-31T23:59:59Z'') = Some 946684799000"
    by code_simp
  have 3: "- 62167219200000 \<le> (946684799000::int) \<and> (946684799000::int) < 253402300800000"
    by simp
  from 1 2 3
    formatDate_calendar_date [of Date_parse_utc "''31/12/1999''"]
    formatDate_calendar_date [of Date_parse_utc "''1999-12-31T23:59:59Z''" 946684799000]
  show ?thesis by blast
qed

lemma toISOString_year_10000:
  "toISOString (Some 253402300800000) = Inr ''+010000-01-01T00:00:00.000Z''"
  by code_simp

text \<open>
  C6.  \<open>formatDate\<close> does not return a date of the form \<^verbatim>\<open>YYYY-MM-DD\<close> for every input that
  parses: for the first instant of the year 10000, given as the string
  \<^verbatim>\<open>+010000-01-01T00:00:00Z\<close> or, to any host, as the number of its milliseconds, the result
  is \<^verbatim>\<open>+010000-01-01\<close>, with the sign and the six digits that \<^verbatim>\<open>toISOString\<close> gives a year
  beyond 9999.
\<close>

theorem formatDate_expanded_year:
  "TimeClip (Date_parse_utc ''+010000-01-01T00:00:00Z'') = Some 253402300800000
   \<and> formatDate Date_parse_utc (JStr ''+010000-01-01T00:00:00Z'') = ''+010000-01-01''
   \<and> \<not> is_YYYY_MM_DD (formatDate Date_parse_utc (JStr ''+010000-01-01T00:00:00Z''))
   \<and> formatDate parse (JNum (Fin 253402300800000)) = ''+010000-01-01''
   \<and> \<not> is_YYYY_MM_DD (formatDate parse (JNum (Fin 253402300800000)))"
proof -
  have 1: "TimeClip (Date_parse_utc ''+010000-01-01T00:00:00Z'') = Some 253402300800000
      \<and> formatDate Date_parse_utc (JStr ''+010000-01-01T00:00:00Z'') = ''+010000-01-01''
      \<and> \<not> is_YYYY_MM_DD (formatDate Date_parse_utc (JStr ''+010000-01-01T00:00:00Z''))"
    by code_simp
  have 2: "formatDate parse (JNum (Fin 253402300800000)) = ''+010000-01-01''"
    by (simp add: formatDate_def truthy_def new_Date_def Number_of_def TimeClip_def
        toISOString_year_10000 split_first_def)
  have 3: "\<not> is_YYYY_MM_DD ''+010000-01-01''"
    by (simp add: is_YYYY_MM_DD_def)
  from 1 2 3 show ?thesis by simp
qed

section \<open>Properties of extractJson\<close>

lemma trim_trimEnd: "trim s = trimEnd (dropWhile is_space s)"
  by (simp add: trim_def trimEnd_def)

lemma not_space_BACKTICK: "\<not> is_space BACKTICK"
  by (simp add: is_space_def BACKTICK_def)

lemma startsWith_FENCE_Cons: "startsWith (c # cs) FENCE \<Longrightarrow> c = BACKTICK"
  by (simp add: FENCE_def)

lemma startsWith_FENCE_space: "is_space c \<Longrightarrow> \<not> startsWith (c # cs) FENCE"
  using not_space_BACKTICK startsWith_FENCE_Cons by blast

lemma match_close_eq: "match_close s = startsWith (dropWhile is_space s) FENCE"
proof (induction s)
  case Nil
  show ?case by (simp add: FENCE_def)
next
  case (Cons c cs)
  then show ?case using startsWith_FENCE_space [of c cs] by auto
qed

lemma before_fence_spaces:
  "startsWith (dropWhile is_space s) FENCE \<Longrightarrow> before_fence s = Some (takeWhile is_space s)"
proof (induction s)
  case Nil
  then show ?case by (simp add: FENCE_def)
next
  case (Cons c cs)
  then show ?case using startsWith_FENCE_space [of c cs] by auto
qed

lemma trimEnd_spaces: "list_all is_space x \<Longrightarrow> trimEnd x = []"
  by (simp add: trimEnd_def list_all_iff dropWhile_eq_Nil_conv)

lemma trimEnd_Cons:
  "\<not> (is_space c \<and> list_all is_space x) \<Longrightarrow> trimEnd (c # x) = c # trimEnd x"
  by (auto simp: trimEnd_def dropWhile_append list_all_iff)

lemma before_fence_Some: "before_fence s = Some x \<Longrightarrow> \<exists>r. s = x @ FENCE @ r"
proof (induction s arbitrary: x)
  case Nil
  then show ?case by simp
next
  case (Cons c cs)
  show ?case
  proof (cases "startsWith (c # cs) FENCE")
    case True
    then have "\<exists>r. c # cs = FENCE @ r"
      by (auto simp: FENCE_def split: list.splits) (metis list.exhaust startsWith.simps(2,3))
    with True Cons.prems show ?thesis by simp
  next
    case False
    with Cons.prems obtain y where y: "before_fence cs = Some y" "x = c # y" by auto
    from Cons.IH [OF y(1)] y(2) show ?thesis by auto
  qed
qed

lemma takeWhile_spaces: "list_all is_space (takeWhile is_space s)"
  by (induction s) simp_all

lemma match_group_eq: "match_group s = map_option trimEnd (before_fence s)"
proof (induction s)
  case Nil
  show ?case by simp
next
  case (Cons c cs)
  show ?case
  proof (cases "match_close (c # cs)")
    case True
    then have "before_fence (c # cs) = Some (takeWhile is_space (c # cs))"
      unfolding match_close_eq by (rule before_fence_spaces)
    with True show ?thesis
      by (simp add: trimEnd_spaces takeWhile_spaces del: before_fence.simps takeWhile.simps)
  next
    case False
    have nf: "\<not> startsWith (c # cs) FENCE"
    proof
      assume a: "startsWith (c # cs) FENCE"
      then have "\<not> is_space c" using startsWith_FENCE_space by blast
      with a have "match_close (c # cs)" unfolding match_close_eq by simp
      with False show False by simp
    qed
    show ?thesis
    proof (cases "before_fence cs")
      case None
      with False nf Cons.IH show ?thesis by simp
    next
      case (Some x)
      then obtain r where r: "cs = x @ FENCE @ r" using before_fence_Some by blast
      have "\<not> (is_space c \<and> list_all is_space x)"
      proof
        assume a: "is_space c \<and> list_all is_space x"
        then have "dropWhile is_space (c # cs) = FENCE @ r"
          unfolding r using not_space_BACKTICK
          by (simp add: dropWhile_append list_all_iff FENCE_def)
        then have "match_close (c # cs)"
          unfolding match_close_eq by (simp add: FENCE_def)
        with False show False by simp
      qed
      then have "trimEnd (c # x) = c # trimEnd x" by (rule trimEnd_Cons)
      with False nf Some Cons.IH show ?thesis by simp
    qed
  qed
qed

lemma trim_space_Cons: "is_space c \<Longrightarrow> trim (c # x) = trim x"
  by (simp add: trim_def)

lemma trim_nonspace: "x = [] \<or> \<not> is_space (hd x) \<Longrightarrow> trim x = trimEnd x"
  by (cases x) (auto simp: trim_def trimEnd_def)

lemma before_fence_hd: "before_fence (c # cs) = Some y \<Longrightarrow> y = [] \<or> hd y = c"
  by (auto split: if_splits)

lemma match_body_eq: "match_body s = map_option trim (before_fence s)"
proof (induction s)
  case Nil
  show ?case by simp
next
  case (Cons c cs)
  show ?case
  proof (cases "is_space c")
    case True
    then have nf: "\<not> startsWith (c # cs) FENCE" by (rule startsWith_FENCE_space)
    show ?thesis
    proof (cases "before_fence cs")
      case None
      with True nf Cons.IH show ?thesis by (simp add: match_group_eq del: match_group.simps)
    next
      case (Some x)
      with True nf Cons.IH show ?thesis by (simp add: trim_space_Cons)
    qed
  next
    case False
    show ?thesis
    proof (cases "before_fence (c # cs)")
      case None
      with False show ?thesis
        by (simp add: match_group_eq del: match_group.simps before_fence.simps)
    next
      case (Some y)
      then have "y = [] \<or> \<not> is_space (hd y)" using before_fence_hd False by blast
      then have "trim y = trimEnd y" by (rule trim_nonspace)
      with False Some show ?thesis
        by (simp add: match_group_eq del: match_group.simps before_fence.simps)
    qed
  qed
qed

lemma match_literal_drop:
  "match_literal ic lit s = Some rest \<Longrightarrow> rest = drop (length lit) s"
  by (induction ic lit s rule: match_literal.induct) (auto split: if_splits)

lemma after_literal_drop:
  "after_literal ic lit s = Some rest \<Longrightarrow> \<exists>n. length lit \<le> n \<and> rest = drop n s"
proof (induction s)
  case Nil
  then show ?case by simp
next
  case (Cons c cs)
  show ?case
  proof (cases "match_literal ic lit (c # cs)")
    case None
    with Cons.prems have "after_literal ic lit cs = Some rest" by simp
    from Cons.IH [OF this] obtain n where "length lit \<le> n" "rest = drop n cs" by blast
    then have "length lit \<le> Suc n \<and> rest = drop (Suc n) (c # cs)" by simp
    then show ?thesis by blast
  next
    case (Some r)
    with Cons.prems have "rest = r" by simp
    with Some match_literal_drop have "rest = drop (length lit) (c # cs)" by blast
    then show ?thesis by blast
  qed
qed

lemma before_fence_None_tl: "before_fence (c # cs) = None \<Longrightarrow> before_fence cs = None"
  by (auto split: if_splits)

lemma before_fence_None_drop: "before_fence s = None \<Longrightarrow> before_fence (drop n s) = None"
proof (induction n arbitrary: s)
  case 0
  then show ?case by simp
next
  case (Suc n)
  show ?case
  proof (cases s)
    case Nil
    then show ?thesis by simp
  next
    case (Cons c cs)
    with Suc.prems have "before_fence cs = None" using before_fence_None_tl by blast
    from Suc.IH [OF this] Cons show ?thesis by simp
  qed
qed

lemma exec_fence_eq: "exec_fence ic lit s = fenced_block ic lit s"
proof (induction s)
  case Nil
  show ?case by (simp add: fenced_block_def)
next
  case (Cons c cs)
  show ?case
  proof (cases "match_literal ic lit (c # cs)")
    case None
    with Cons.IH show ?thesis by (simp add: fenced_block_def)
  next
    case (Some rest)
    show ?thesis
    proof (cases "before_fence rest")
      case (Some x)
      with \<open>match_literal ic lit (c # cs) = Some rest\<close> show ?thesis
        by (simp add: fenced_block_def match_body_eq)
    next
      case None
      have r: "rest = drop (length lit) (c # cs)"
        using Some by (rule match_literal_drop)
      have "fenced_block ic lit cs = None"
      proof (cases "after_literal ic lit cs")
        case None
        then show ?thesis by (simp add: fenced_block_def)
      next
        case (Some rest')
        then obtain n where n: "length lit \<le> n" "rest' = drop n cs"
          using after_literal_drop by blast
        have "rest' = drop (Suc n - length lit) rest"
          using n r by (simp add: Suc_diff_le)
        then have "before_fence rest' = None"
          using None before_fence_None_drop by simp
        with Some show ?thesis by (simp add: fenced_block_def)
      qed
      with None Some Cons.IH show ?thesis
        by (simp add: fenced_block_def match_body_eq)
    qed
  qed
qed

lemma trimEnd_idem: "trimEnd (trimEnd x) = trimEnd x"
  by (simp add: trimEnd_def)

lemma trimEnd_hd: "\<not> is_space c \<Longrightarrow> trimEnd (c # ys) = c # trimEnd ys"
  by (rule trimEnd_Cons) simp

lemma takeWhile_shorter: "x \<in> set l \<Longrightarrow> \<not> P x \<Longrightarrow> length (takeWhile P l) < length l"
  by (induction l) auto

lemma trim_trim: "trim (trim x) = trim x"
proof -
  define y where "y = dropWhile is_space x"
  have y: "y = [] \<or> \<not> is_space (hd y)"
    unfolding y_def using hd_dropWhile [of is_space x] by auto
  have t: "trim x = trimEnd y" by (simp add: trim_trimEnd y_def)
  have "dropWhile is_space (trimEnd y) = trimEnd y"
  proof (cases y)
    case Nil
    then show ?thesis by (simp add: trimEnd_def)
  next
    case (Cons c ys)
    with y have "\<not> is_space c" by simp
    from trimEnd_hd [OF this, of ys] Cons \<open>\<not> is_space c\<close> show ?thesis by simp
  qed
  then show ?thesis unfolding t by (simp add: trim_trimEnd trimEnd_idem)
qed

lemma takeWhile_neq_append:
  "c \<notin> set xs \<Longrightarrow>
     takeWhile (\<lambda>x. x \<noteq> c) (xs @ ys) = xs @ takeWhile (\<lambda>x. x \<noteq> c) ys"
  by (induction xs) auto

lemma indexOf_eq:
  "indexOf s c = (if c \<in> set s then int (length (takeWhile (\<lambda>x. x \<noteq> c) s)) else - 1)"
  by (induction s) (auto simp: Let_def)

lemma lastIndexOf_eq:
  "lastIndexOf s c =
     (if c \<in> set s then int (length s) - 1 - int (length (takeWhile (\<lambda>x. x \<noteq> c) (rev s)))
      else - 1)"
proof (induction s)
  case Nil
  show ?case by simp
next
  case (Cons x xs)
  show ?case
  proof (cases "c \<in> set xs")
    case True
    then have "takeWhile (\<lambda>x. x \<noteq> c) (rev xs @ [x]) = takeWhile (\<lambda>x. x \<noteq> c) (rev xs)"
      by (intro takeWhile_append1 [of c]) auto
    moreover have "length (takeWhile (\<lambda>x. x \<noteq> c) (rev xs)) < length xs"
      using True takeWhile_shorter [of c "rev xs" "\<lambda>x. x \<noteq> c"] by simp
    ultimately show ?thesis using True Cons.IH by (simp add: Let_def)
  next
    case False
    then have "takeWhile (\<lambda>x. x \<noteq> c) (rev xs @ [x]) = rev xs @ takeWhile (\<lambda>x. x \<noteq> c) [x]"
      by (simp add: takeWhile_neq_append)
    then have "length (takeWhile (\<lambda>x. x \<noteq> c) (rev xs @ [x]))
        = length xs + (if x = c then 0 else 1)"
      by simp
    with False Cons.IH show ?thesis by (auto simp: Let_def)
  qed
qed

lemma brace_rule_eq: "brace_rule s = brace_span s"
proof -
  define a where "a = takeWhile (\<lambda>c. c \<noteq> CHR ''{'') s"
  define t where "t = dropWhile (\<lambda>c. c \<noteq> CHR ''{'') s"
  have s: "s = a @ t" by (simp add: a_def t_def)
  have ht: "t = [] \<or> hd t = CHR ''{''"
    unfolding t_def using hd_dropWhile [of "\<lambda>c. c \<noteq> CHR ''{''" s] by auto
  have open_iff: "CHR ''{'' \<in> set s \<longleftrightarrow> t \<noteq> []"
    by (auto simp: t_def dropWhile_eq_Nil_conv)
  show ?thesis
  proof (cases "CHR ''}'' \<in> set t")
    case True
    then have tn: "t \<noteq> []" by auto
    with ht obtain t' where t': "t = CHR ''{'' # t'" by (cases t) auto
    define u where "u = takeWhile (\<lambda>c. c \<noteq> CHR ''}'') (rev t)"
    have cs: "CHR ''}'' \<in> set s" using True s by simp
    have tk: "takeWhile (\<lambda>c. c \<noteq> CHR ''}'') (rev s) = u"
      unfolding s u_def using True by (simp add: takeWhile_append1 [of "CHR ''}''"])
    have "CHR ''}'' \<in> set t'" using True t' by simp
    then have tk': "takeWhile (\<lambda>c. c \<noteq> CHR ''}'') (rev t' @ ''{'') = takeWhile (\<lambda>c. c \<noteq> CHR ''}'') (rev t')"
      by (intro takeWhile_append1 [of "CHR ''}''"]) auto
    have "length (takeWhile (\<lambda>c. c \<noteq> CHR ''}'') (rev t')) < length t'"
      using \<open>CHR ''}'' \<in> set t'\<close>
        takeWhile_shorter [of "CHR ''}''" "rev t'" "\<lambda>c. c \<noteq> CHR ''}''"] by simp
    then have lu: "length u + 2 \<le> length t"
      unfolding u_def t' using tk' by simp
    have first: "indexOf s (CHR ''{'') = int (length a)"
      using open_iff tn by (simp add: indexOf_eq a_def)
    have last: "lastIndexOf s (CHR ''}'') = int (length s) - 1 - int (length u)"
      using cs tk by (simp add: lastIndexOf_eq)
    have dw: "dropWhile (\<lambda>c. c \<noteq> CHR ''}'') (rev t) = drop (length u) (rev t)"
      unfolding u_def by (simp add: dropWhile_eq_drop)
    have "slice s (int (length a)) (int (length s) - 1 - int (length u) + 1)
        = take (length t - length u) t"
      using lu unfolding slice_def s by (simp add: nat_diff_distrib nat_add_distrib)
    also have "\<dots> = rev (dropWhile (\<lambda>c. c \<noteq> CHR ''}'') (rev t))"
      unfolding dw by (simp add: rev_drop)
    finally have sl: "slice s (int (length a)) (int (length s) - 1 - int (length u) + 1)
        = rev (dropWhile (\<lambda>c. c \<noteq> CHR ''}'') (rev t))" .
    have "int (length a) < int (length s) - 1 - int (length u)"
      using lu s by simp
    with sl first last True show ?thesis
      unfolding brace_rule_def brace_span_def Let_def t_def [symmetric] by simp
  next
    case False
    have "\<not> (indexOf s (CHR ''{'') \<noteq> - 1 \<and> lastIndexOf s (CHR ''}'') \<noteq> - 1
         \<and> lastIndexOf s (CHR ''}'') > indexOf s (CHR ''{''))"
    proof (cases "CHR ''{'' \<in> set s \<and> CHR ''}'' \<in> set s")
      case True
      then have first: "indexOf s (CHR ''{'') = int (length a)"
        by (simp add: indexOf_eq a_def)
      have "takeWhile (\<lambda>c. c \<noteq> CHR ''}'') (rev s)
          = rev t @ takeWhile (\<lambda>c. c \<noteq> CHR ''}'') (rev a)"
        unfolding s using False by (simp add: takeWhile_neq_append)
      then have "length t \<le> length (takeWhile (\<lambda>c. c \<noteq> CHR ''}'') (rev s))"
        by simp
      then have "lastIndexOf s (CHR ''}'') < int (length a)"
        using True s by (simp add: lastIndexOf_eq)
      with first show ?thesis by simp
    next
      case False
      then show ?thesis by (auto simp: indexOf_eq lastIndexOf_eq)
    qed
    with False show ?thesis
      unfolding brace_rule_def brace_span_def Let_def t_def [symmetric] by auto
  qed
qed

lemma fenced_block_trimmed: "fenced_block ic lit s = Some g \<Longrightarrow> trim g = g"
  by (auto simp: fenced_block_def trim_trim split: option.splits)

lemma extractJson_amended: "extractJson s = amended_extractJson s"
proof -
  have r: "fence_rule s
      = (case nonempty_block False FENCE s of Some inner \<Rightarrow> Some inner | None \<Rightarrow> brace_span s)"
    using fenced_block_trimmed [of False FENCE s]
    by (auto simp: fence_rule_def nonempty_block_def exec_fence_eq brace_rule_eq
        split: option.splits)
  have e: "amended_extractJson [] = None"
    by (simp add: amended_extractJson_def nonempty_block_def fenced_block_def brace_span_def)
  show ?thesis
  proof (cases "s = []")
    case True
    with e show ?thesis by (simp add: extractJson_def)
  next
    case False
    then show ?thesis
      using fenced_block_trimmed [of True "FENCE @ ''json''" s]
      by (auto simp: extractJson_def amended_extractJson_def nonempty_block_def exec_fence_eq r
          split: option.splits)
  qed
qed

lemma brace_span_nonempty: "brace_span s \<noteq> Some []"
proof
  assume a: "brace_span s = Some []"
  define t where "t = dropWhile (\<lambda>c. c \<noteq> CHR ''{'') s"
  from a have m: "CHR ''}'' \<in> set t" and e: "dropWhile (\<lambda>c. c \<noteq> CHR ''}'') (rev t) = []"
    unfolding brace_span_def Let_def t_def [symmetric] by (auto split: if_splits)
  from e have "\<forall>x\<in>set (rev t). x \<noteq> CHR ''}''" by (simp add: dropWhile_eq_Nil_conv)
  with m show False by auto
qed

lemma extractJson_nonempty: "extractJson s \<noteq> Some []"
  unfolding extractJson_amended amended_extractJson_def nonempty_block_def
  using brace_span_nonempty [of s] by (auto split: option.splits if_splits)

text \<open>
  C2 (as amended).  For every input string \<open>extractJson\<close> applies this priority order, the
  first match winning.  (1) If the text has an opening fence followed at once by the letters
  \<^verbatim>\<open>json\<close>, in either case, and a fence after them, and the trimmed text between the
  leftmost such letters and the next fence is not empty, that text.  Nothing has to end the
  label: a block labelled \<^verbatim>\<open>json5\<close> is found by this rule and the result starts with the
  \<^verbatim>\<open>5\<close>.  (2) Otherwise, if the text has a fence and a fence after it, and the trimmed text
  between the leftmost fence and the next one, a label included, is not empty, that text.
  (3) Otherwise, if the first opening brace comes strictly before the last closing brace,
  the text from the one to the other inclusive.  (4) Otherwise \<^verbatim>\<open>null\<close>.  In particular the
  fenced \<^verbatim>\<open>{"a":1}\<close> is returned by rule 1, a brace-delimited text inside prose by rule 3, and
  a text with no fence and no brace pair gives \<^verbatim>\<open>null\<close>.
\<close>

theorem extractJson_priority:
  "extractJson s = amended_extractJson s
   \<and> extractJson (FENCE @ ''json'' @ [LF] @ example_json @ [LF] @ FENCE) = Some example_json
   \<and> extractJson (FENCE @ ''json5'' @ [LF] @ ''{}'' @ [LF] @ FENCE) = Some (''5'' @ [LF] @ ''{}'')
   \<and> extractJson (''Here you go: '' @ example_json @ '' thanks'') = Some example_json
   \<and> extractJson ''no json here at all'' = None"
proof -
  have 2: "extractJson (FENCE @ ''json'' @ [LF] @ example_json @ [LF] @ FENCE) = Some example_json"
    by code_simp
  have 3: "extractJson (''Here you go: '' @ example_json @ '' thanks'') = Some example_json"
    by code_simp
  have 4: "extractJson ''no json here at all'' = None"
    by code_simp
  have 5: "extractJson (FENCE @ ''json5'' @ [LF] @ ''{}'' @ [LF] @ FENCE)
      = Some (''5'' @ [LF] @ ''{}'')"
    by code_simp
  from extractJson_amended [of s] 2 3 4 5 show ?thesis by blast
qed

text \<open>
  C2 (as stated) fails in three ways.  An opening fence labelled json followed at once by
  the closing fence is a json block with empty content, which rule 1 as stated returns; the
  code returns \<^verbatim>\<open>json\<close>, the text that the second expression finds between the two fences.
  An unlabelled block that holds one space, followed by \<^verbatim>\<open>{}\<close>, has empty trimmed content,
  which rule 2 as stated returns; the code returns \<^verbatim>\<open>{}\<close> by rule 3.  A block labelled
  \<^verbatim>\<open>json5\<close> that holds \<^verbatim>\<open>{}\<close> is not labelled json, so that as stated rule 2 applies; the code
  returns the \<^verbatim>\<open>5\<close>, a newline and \<^verbatim>\<open>{}\<close> by rule 1.
\<close>

theorem extractJson_empty_block:
  "labelled_block (FENCE @ ''json'' @ FENCE) = Some []
   \<and> spec_extractJson (FENCE @ ''json'' @ FENCE) = Some []
   \<and> extractJson (FENCE @ ''json'' @ FENCE) = Some ''json''
   \<and> fenced_block False FENCE (FENCE @ '' '' @ FENCE @ ''{}'') = Some []
   \<and> spec_extractJson (FENCE @ '' '' @ FENCE @ ''{}'') = Some []
   \<and> extractJson (FENCE @ '' '' @ FENCE @ ''{}'') = Some ''{}''
   \<and> labelled_block (FENCE @ ''json5'' @ [LF] @ ''{}'' @ [LF] @ FENCE) = None
   \<and> spec_extractJson (FENCE @ ''json5'' @ [LF] @ ''{}'' @ [LF] @ FENCE)
       = Some (''json5'' @ [LF] @ ''{}'')
   \<and> extractJson (FENCE @ ''json5'' @ [LF] @ ''{}'' @ [LF] @ FENCE)
       = Some (''5'' @ [LF] @ ''{}'')"
  by code_simp

section \<open>Properties of the analysis endpoint\<close>

text \<open>
  C3.  The replies to the two failures: when \<open>extractJson\<close> finds no candidate in the text of
  the model, the reply is 502 with the raw text; when it finds a candidate that
  \<^verbatim>\<open>JSON.parse\<close> rejects, the reply is 500 with the message of the parser, which is the
  reply to a model call that failed with that message.
\<close>

theorem parse_failure_reply:
  "(key \<noteq> [] \<and> extractJson text = None
      \<longrightarrow> analyze_receipt (\<lambda>bytes mime. Inr (Some text)) JSON_parse (Some key) (Some file)
          = (502, ModelFormatError ''Model did not return JSON'' text))
   \<and> (key \<noteq> [] \<and> extractJson text = Some c \<and> JSON_parse c = Inl msg
      \<longrightarrow> analyze_receipt (\<lambda>bytes mime. Inr (Some text)) JSON_parse (Some key) (Some file)
          = (500, AnalysisFailed ''Failed to analyze receipt'' msg)
        \<and> analyze_receipt (\<lambda>bytes mime. Inl msg) JSON_parse (Some key) (Some file)
          = (500, AnalysisFailed ''Failed to analyze receipt'' msg))"
  using extractJson_nonempty [of "text"] by (auto simp: analyze_receipt_def)

theorem parse_failure_reply_witness:
  "analyze_receipt (\<lambda>bytes mime. Inr (Some ''no json here''))
       (\<lambda>s. Inl ''Unexpected token o in JSON at position 1'' :: string + unit)
       (Some ''key'') (Some \<lparr>file_bytes = [255, 216], mimetype = None\<rparr>)
     = (502, ModelFormatError ''Model did not return JSON'' ''no json here'')
   \<and> analyze_receipt (\<lambda>bytes mime. Inr (Some ''{oops}''))
       (\<lambda>s. Inl ''Unexpected token o in JSON at position 1'' :: string + unit)
       (Some ''key'') (Some \<lparr>file_bytes = [255, 216], mimetype = None\<rparr>)
     = (500, AnalysisFailed ''Failed to analyze receipt''
          ''Unexpected token o in JSON at position 1'')"
proof -
  have 1: "extractJson ''no json here'' = None"
    by code_simp
  have 2: "extractJson ''{oops}'' = Some ''{oops}''"
    by code_simp
  from 1 2
    parse_failure_reply [of "''key''" "''no json here''"
      "\<lambda>s. Inl ''Unexpected token o in JSON at position 1'' :: string + unit"
      "\<lparr>file_bytes = [255, 216], mimetype = None\<rparr>"]
    parse_failure_reply [of "''key''" "''{oops}''"
      "\<lambda>s. Inl ''Unexpected token o in JSON at position 1'' :: string + unit"
      "\<lparr>file_bytes = [255, 216], mimetype = None\<rparr>" "''{oops}''"
      "''Unexpected token o in JSON at position 1''"]
  show ?thesis by simp
qed

end
